theory Spec2Isabelle
  imports Complex_Main "HOL-Library.Sublist"
begin

section \<open>JSON values and Python helpers\<close>

text \<open>
  Request and response bodies are the trees that \<^verbatim>\<open>json.loads\<close> and
  \<^verbatim>\<open>response.json()\<close> build: \<^verbatim>\<open>None\<close>, booleans, integers, floats,
  strings, lists and dicts. A dict is an association list in insertion order (Python
  dicts have unique keys, so entry-wise updates coincide with updates by key). Floats are
  idealised as reals; strings are byte lists, and case mapping is modelled on ASCII
  letters only.
\<close>

datatype json =
    JNull
  | JBool bool
  | JInt int
  | JReal real
  | JStr string
  | JArr "json list"
  | JObj "(string \<times> json) list"

text \<open>Python exceptions, by the classes the handlers of this program tell apart.\<close>

datatype exn =
    ValueError string
  | UnboundLocalError string
  | Exception string

fun str_of_exn :: "exn \<Rightarrow> string" where
  "str_of_exn (ValueError m) = m"
| "str_of_exn (UnboundLocalError m) = m"
| "str_of_exn (Exception m) = m"

definition upper_char :: "char \<Rightarrow> char" where
  "upper_char c = (let n = of_char c :: nat in
      if 97 \<le> n \<and> n \<le> 122 then char_of (n - 32) else c)"

definition lower_char :: "char \<Rightarrow> char" where
  "lower_char c = (let n = of_char c :: nat in
      if 65 \<le> n \<and> n \<le> 90 then char_of (n + 32) else c)"

definition str_upper :: "string \<Rightarrow> string" where
  "str_upper s = map upper_char s"

definition str_lower :: "string \<Rightarrow> string" where
  "str_lower s = map lower_char s"

text \<open>\<^verbatim>\<open>needle in haystack\<close> on strings.\<close>

fun str_contains :: "string \<Rightarrow> string \<Rightarrow> bool" where
  "str_contains needle [] = (needle = [])"
| "str_contains needle (c # cs) = (prefix needle (c # cs) \<or> str_contains needle cs)"

text \<open>Truthiness of a JSON value, as \<^verbatim>\<open>if v:\<close> and \<^verbatim>\<open>v or d\<close> test it.\<close>

fun json_truthy :: "json \<Rightarrow> bool" where
  "json_truthy JNull = False"
| "json_truthy (JBool b) = b"
| "json_truthy (JInt i) = (i \<noteq> 0)"
| "json_truthy (JReal r) = (r \<noteq> 0)"
| "json_truthy (JStr s) = (s \<noteq> [])"
| "json_truthy (JArr xs) = (xs \<noteq> [])"
| "json_truthy (JObj kvs) = (kvs \<noteq> [])"

text \<open>Truthiness of an \<^verbatim>\<open>Optional[str]\<close>: \<^verbatim>\<open>None\<close> and the empty string are falsy.\<close>

fun str_truthy :: "string option \<Rightarrow> bool" where
  "str_truthy None = False"
| "str_truthy (Some s) = (s \<noteq> [])"

text \<open>\<^verbatim>\<open>int(x)\<close> on a float truncates towards zero.\<close>

definition py_int :: "real \<Rightarrow> int" where
  "py_int x = (if 0 \<le> x then \<lfloor>x\<rfloor> else \<lceil>x\<rceil>)"

text \<open>
  Validation of a field by pydantic when a model object is built: a required string, a
  string with a default, an optional string, a required integer and an integer with a
  default. A ValidationError is a ValueError. Integers are accepted as JSON integers and
  as floats with no fractional part; the other lax conversions of pydantic (numeric
  strings) are not modelled, such values are rejected.
\<close>

definition pyd_str :: "json option \<Rightarrow> exn + string" where
  "pyd_str v =
     (case v of
        Some (JStr s) \<Rightarrow> Inr s
      | _ \<Rightarrow> Inl (ValueError ''ValidationError: string required''))"

definition pyd_str_default :: "json option \<Rightarrow> string \<Rightarrow> exn + string" where
  "pyd_str_default v d =
     (case v of
        None \<Rightarrow> Inr d
      | Some (JStr s) \<Rightarrow> Inr s
      | _ \<Rightarrow> Inl (ValueError ''ValidationError: string required''))"

definition pyd_opt_str :: "json option \<Rightarrow> exn + string option" where
  "pyd_opt_str v =
     (case v of
        None \<Rightarrow> Inr None
      | Some JNull \<Rightarrow> Inr None
      | Some (JStr s) \<Rightarrow> Inr (Some s)
      | _ \<Rightarrow> Inl (ValueError ''ValidationError: string or null required''))"

definition pyd_int :: "json option \<Rightarrow> exn + int" where
  "pyd_int v =
     (case v of
        Some (JInt n) \<Rightarrow> Inr n
      | Some (JReal r) \<Rightarrow>
          if r = of_int \<lfloor>r\<rfloor> then Inr \<lfloor>r\<rfloor>
          else Inl (ValueError ''ValidationError: integer required'')
      | _ \<Rightarrow> Inl (ValueError ''ValidationError: integer required''))"

definition pyd_int_default :: "json option \<Rightarrow> int \<Rightarrow> exn + int" where
  "pyd_int_default v d = (case v of None \<Rightarrow> Inr d | Some x \<Rightarrow> pyd_int (Some x))"

section \<open>Schema cleaners\<close>

text \<open>
  Both mappers keep only the keys Gemini accepts
  (\<^verbatim>\<open>openai_mapper.py\<close> l.161, \<^verbatim>\<open>claude_mapper.py\<close> l.183).
\<close>

definition allowed_keys :: "string list" where
  "allowed_keys = [''type'', ''description'', ''properties'', ''required'',
                   ''items'', ''enum'', ''format'', ''nullable'']"

text \<open>
  \<^verbatim>\<open>if "type" in obj and isinstance(obj["type"], str): obj["type"] = obj["type"].upper()\<close>,
  as it acts on one entry of the dict.
\<close>

definition upper_type :: "string \<times> json \<Rightarrow> string \<times> json" where
  "upper_type kv =
     (case kv of
        (k, JStr s) \<Rightarrow> if k = ''type'' then (k, JStr (str_upper s)) else kv
      | _ \<Rightarrow> kv)"

lemma size_upper_type [simp]: "size (snd (upper_type kv)) = size (snd kv)"
  by (auto simp: upper_type_def split: prod.splits json.splits)

lemma size_entry:
  "(k, v) \<in> set kvs \<Longrightarrow> size v < Suc (size_list (size_prod (\<lambda>x. 0) size) kvs)"
  by (induction kvs) auto

lemma size_upper_entry:
  assumes "(k, v) \<in> set (map upper_type (filter P kvs))"
  shows "size v < size (JObj kvs)"
proof -
  from assms obtain kv where kv: "kv \<in> set kvs" and "(k, v) = upper_type kv" by auto
  then have "size v = size (snd kv)"
    using size_upper_type [of kv] by (metis snd_conv)
  moreover have "size (snd kv) < size (JObj kvs)"
    using kv size_entry [of "fst kv" "snd kv" kvs] by simp
  ultimately show ?thesis by simp
qed

text \<open>
  The Claude-side cleaner, \<^verbatim>\<open>_clean_schema\<close> (\<^verbatim>\<open>claude_mapper.py\<close> l.178-199). Its
  inner \<^verbatim>\<open>clean(obj)\<close> works on a deep copy: on a dict it deletes the keys outside the
  allow-list, upper-cases a string under \<^verbatim>\<open>"type"\<close>, then recurses into every value;
  on a list it recurses into every item; anything else is left alone. Mutation in place
  on the copy is modelled by returning the cleaned value.
\<close>

function clean :: "json \<Rightarrow> json" where
  "clean (JObj kvs) =
     JObj (map (\<lambda>(k, v). (k, clean v))
            (map upper_type (filter (\<lambda>(k, v). k \<in> set allowed_keys) kvs)))"
| "clean (JArr xs) = JArr (map clean xs)"
| "clean JNull = JNull"
| "clean (JBool b) = JBool b"
| "clean (JInt i) = JInt i"
| "clean (JReal r) = JReal r"
| "clean (JStr s) = JStr s"
  by pat_completeness auto
termination
proof (relation "measure size")
  show "wf (measure size)" by simp
next
  fix kvs :: "(string \<times> json) list" and x xa y
  assume "x \<in> set (map upper_type (filter (\<lambda>(k, v). k \<in> set allowed_keys) kvs))"
    and "(xa, y) = x"
  then show "(y, JObj kvs) \<in> measure size"
    using size_upper_entry [of xa y _ kvs] by simp
next
  fix xs :: "json list" and x
  assume "x \<in> set xs"
  then show "(x, JArr xs) \<in> measure size"
    by (induction xs) auto
qed

definition clean_schema :: "json \<Rightarrow> json" where
  "clean_schema schema = clean schema"

text \<open>
  The OpenAI-side cleaner, \<^verbatim>\<open>_clean_json_schema\<close> (\<^verbatim>\<open>openai_mapper.py\<close> l.156-178),
  called on a dict. It deletes the keys outside the allow-list, upper-cases a string under
  \<^verbatim>\<open>"type"\<close>, and recurses only into the dict values of a dict under
  \<^verbatim>\<open>"properties"\<close> and into a dict under \<^verbatim>\<open>"items"\<close>. Every recursive call of the
  source sits behind an \<^verbatim>\<open>isinstance(..., dict)\<close> test; the equations for the other
  constructors are that test failing.
\<close>

function clean_json_schema :: "json \<Rightarrow> json" where
  "clean_json_schema (JObj kvs) =
     JObj (map (\<lambda>(k, v).
             if k = ''properties'' then
               (case v of
                  JObj ps \<Rightarrow> (k, JObj (map (\<lambda>(pk, pv). (pk, clean_json_schema pv)) ps))
                | _ \<Rightarrow> (k, v))
             else if k = ''items'' then (k, clean_json_schema v)
             else (k, v))
            (map upper_type (filter (\<lambda>(k, v). k \<in> set allowed_keys) kvs)))"
| "clean_json_schema (JArr xs) = JArr xs"
| "clean_json_schema JNull = JNull"
| "clean_json_schema (JBool b) = JBool b"
| "clean_json_schema (JInt i) = JInt i"
| "clean_json_schema (JReal r) = JReal r"
| "clean_json_schema (JStr s) = JStr s"
  by pat_completeness auto
termination
proof (relation "measure size")
  show "wf (measure size)" by simp
next
  fix kvs :: "(string \<times> json) list" and x xa y ps xb xc yb
  assume "x \<in> set (map upper_type (filter (\<lambda>(k, v). k \<in> set allowed_keys) kvs))"
    and "(xa, y) = x" and "y = JObj ps" and "xb \<in> set ps" and "(xc, yb) = xb"
  then have "size y < size (JObj kvs)" and "size yb < size (JObj ps)"
    using size_upper_entry [of xa y _ kvs] size_entry [of xc yb ps] by simp_all
  then show "(yb, JObj kvs) \<in> measure size"
    using \<open>y = JObj ps\<close> by simp
next
  fix kvs :: "(string \<times> json) list" and x xa y
  assume "x \<in> set (map upper_type (filter (\<lambda>(k, v). k \<in> set allowed_keys) kvs))"
    and "(xa, y) = x"
  then show "(y, JObj kvs) \<in> measure size"
    using size_upper_entry [of xa y _ kvs] by simp
qed

section \<open>Floating point\<close>

text \<open>
  A Python float is an IEEE 754 binary64 number. Its value is a real; comparison,
  negation and conversion to an integer are exact, while a literal, a product and a
  difference are rounded to the nearest double, ties to the even mantissa. \<open>round_double\<close>
  is that rounding: the magnitude is written with a mantissa of 53 bits (fewer below the
  smallest normal number, where the quantum stays \<open>2^-1074\<close>) and the mantissa is rounded
  to an integer. Overflow to infinity, NaN and the sign of zero are outside the model;
  the scores and times of this program are far from them.
\<close>

text \<open>The number of binary digits of a non-negative integer, \<^verbatim>\<open>int.bit_length\<close>.\<close>

function bit_length :: "int \<Rightarrow> int" where
  "bit_length k = (if k \<le> 0 then 0 else 1 + bit_length (k div 2))"
  by pat_completeness auto
termination
  by (relation "measure nat") auto

declare bit_length.simps [simp del]

text \<open>For \<open>x > 0\<close>, the integer \<open>e\<close> with \<open>2^e \<le> x < 2^(e+1)\<close>.\<close>

definition ilog2 :: "real \<Rightarrow> int" where
  "ilog2 x =
     (if 1 \<le> x then bit_length \<lfloor>x\<rfloor> - 1
      else - bit_length (\<lceil>1 / x\<rceil> - 1))"

definition pow2 :: "int \<Rightarrow> real" where
  "pow2 k = (if 0 \<le> k then 2 ^ nat k else 1 / 2 ^ nat (- k))"

definition round_half_even :: "real \<Rightarrow> int" where
  "round_half_even x =
     (let f = \<lfloor>x\<rfloor>; d = x - of_int f
      in if d < 1 / 2 then f
         else if 1 / 2 < d then f + 1
         else if even f then f else f + 1)"

definition round_double :: "real \<Rightarrow> real" where
  "round_double x =
     (if x = 0 then 0
      else (let a = \<bar>x\<bar>;
                e = max (ilog2 a) (- 1022);
                q = pow2 (e - 52)
            in sgn x * of_int (round_half_even (a / q)) * q))"

text \<open>\<^verbatim>\<open>x * y\<close> and \<^verbatim>\<open>x - y\<close> on floats.\<close>

definition fmul :: "real \<Rightarrow> real \<Rightarrow> real" where
  "fmul x y = round_double (x * y)"

definition fsub :: "real \<Rightarrow> real \<Rightarrow> real" where
  "fsub x y = round_double (x - y)"

section \<open>OpenAI request mapper: generation config\<close>

text \<open>
  The fields of \<^verbatim>\<open>OpenAIRequest\<close> (\<^verbatim>\<open>openai_models.py\<close> l.44-54) that step 3 of
  \<^verbatim>\<open>transform_openai_to_gemini\<close> reads. \<^verbatim>\<open>stop\<close> is
  \<^verbatim>\<open>Optional[Union[str, List[str]]]\<close>; \<^verbatim>\<open>response_format\<close> is an optional object
  with the one field \<^verbatim>\<open>type\<close>.
\<close>

datatype stop_value = StopStr string | StopList "string list"

record OpenAIRequest =
  max_tokens :: "int option"
  temperature :: "real option"
  top_p :: "real option"
  stop :: "stop_value option"
  response_format :: "string option"

text \<open>\<^verbatim>\<open>x or d\<close> on an optional number: \<^verbatim>\<open>None\<close> and zero are both falsy.\<close>

definition or_int :: "int option \<Rightarrow> int \<Rightarrow> int" where
  "or_int x d = (case x of None \<Rightarrow> d | Some v \<Rightarrow> if v = 0 then d else v)"

definition or_float :: "real option \<Rightarrow> real \<Rightarrow> real" where
  "or_float x d = (case x of None \<Rightarrow> d | Some v \<Rightarrow> if v = 0 then d else v)"

text \<open>
  \<^verbatim>\<open>gen_config\<close> as built by \<^verbatim>\<open>openai_mapper.py\<close> l.98-112: three fixed keys, then
  \<^verbatim>\<open>stopSequences\<close> under \<^verbatim>\<open>if request.stop:\<close> and \<^verbatim>\<open>responseMimeType\<close> under
  \<^verbatim>\<open>if request.response_format and request.response_format.type == "json_object":\<close>.
\<close>

definition gen_config :: "OpenAIRequest \<Rightarrow> (string \<times> json) list" where
  "gen_config request =
     [(''maxOutputTokens'', JInt (or_int (max_tokens request) 64000)),
      (''temperature'', JReal (or_float (temperature request) 1.0)),
      (''topP'', JReal (or_float (top_p request) 1.0))]
     @ (case stop request of
          None \<Rightarrow> []
        | Some (StopStr s) \<Rightarrow> if s = [] then [] else [(''stopSequences'', JArr [JStr s])]
        | Some (StopList ss) \<Rightarrow> if ss = [] then [] else [(''stopSequences'', JArr (map JStr ss))])
     @ (case response_format request of
          None \<Rightarrow> []
        | Some ty \<Rightarrow>
            if ty = ''json_object'' then [(''responseMimeType'', JStr ''application/json'')] else [])"

text \<open>A request that asks for greedy decoding and sets nothing else.\<close>

definition zero_temperature_request :: OpenAIRequest where
  "zero_temperature_request =
     \<lparr>max_tokens = None, temperature = Some 0, top_p = None, stop = None,
      response_format = None\<rparr>"

section \<open>Gemini to OpenAI response mapper\<close>

text \<open>\<^verbatim>\<open>d.get(k)\<close> and \<^verbatim>\<open>d.get(k, default)\<close>: an AttributeError unless \<^verbatim>\<open>d\<close> is a dict.\<close>

definition dict_get :: "json \<Rightarrow> string \<Rightarrow> exn + json option" where
  "dict_get d k =
     (case d of
        JObj kvs \<Rightarrow> Inr (map_of kvs k)
      | _ \<Rightarrow> Inl (Exception ''AttributeError: object has no attribute get''))"

definition dict_get_default :: "json \<Rightarrow> string \<Rightarrow> json \<Rightarrow> exn + json" where
  "dict_get_default d k dflt =
     (case dict_get d k of
        Inl e \<Rightarrow> Inl e
      | Inr None \<Rightarrow> Inr dflt
      | Inr (Some v) \<Rightarrow> Inr v)"

text \<open>
  \<^verbatim>\<open>candidates[0]\<close> once \<^verbatim>\<open>if candidates:\<close> has passed: the head of a non-empty list;
  every other truthy value fails here or at the next \<^verbatim>\<open>.get\<close>.
\<close>

definition first_candidate :: "json \<Rightarrow> exn + json" where
  "first_candidate candidates =
     (case candidates of
        JArr (c # cs) \<Rightarrow> Inr c
      | _ \<Rightarrow> Inl (Exception ''candidates[0] failed''))"

text \<open>
  \<^verbatim>\<open>for part in parts\<close>: a list yields its items, a dict its keys, a string its
  characters; the other values are not iterable.
\<close>

definition iter_json :: "json \<Rightarrow> exn + json list" where
  "iter_json v =
     (case v of
        JArr xs \<Rightarrow> Inr xs
      | JObj kvs \<Rightarrow> Inr (map (\<lambda>(k, _). JStr k) kvs)
      | JStr s \<Rightarrow> Inr (map (\<lambda>c. JStr [c]) s)
      | _ \<Rightarrow> Inl (Exception ''TypeError: object is not iterable''))"

text \<open>
  One round of the loop over parts (\<^verbatim>\<open>response_mapper.py\<close> l.43-55). A part with a
  \<^verbatim>\<open>text\<close> key is a text part whatever else it holds; otherwise a part with a
  \<^verbatim>\<open>functionCall\<close> key is a function call, whose name pydantic requires to be a string
  (its ValidationError is a ValueError). On a string \<^verbatim>\<open>in\<close> is the substring test and
  on a list it is membership, and the subscript that follows fails.
\<close>

datatype part_kind = TextPart json | FunctionCallPart string json | OtherPart

definition classify_part :: "json \<Rightarrow> exn + part_kind" where
  "classify_part part =
     (case part of
        JObj kvs \<Rightarrow>
          (case map_of kvs ''text'' of
             Some t \<Rightarrow> Inr (TextPart t)
           | None \<Rightarrow>
               (case map_of kvs ''functionCall'' of
                  None \<Rightarrow> Inr OtherPart
                | Some fc \<Rightarrow>
                    (case dict_get_default fc ''name'' (JStr '''') of
                       Inl e \<Rightarrow> Inl e
                     | Inr (JStr name) \<Rightarrow>
                         (case dict_get_default fc ''args'' (JObj []) of
                            Inl e \<Rightarrow> Inl e
                          | Inr args \<Rightarrow> Inr (FunctionCallPart name args))
                     | Inr _ \<Rightarrow> Inl (ValueError ''ValidationError: name''))))
      | JStr s \<Rightarrow>
          if str_contains ''text'' s \<or> str_contains ''functionCall'' s
          then Inl (Exception ''TypeError: string indices must be integers'')
          else Inr OtherPart
      | JArr xs \<Rightarrow>
          if JStr ''text'' \<in> set xs \<or> JStr ''functionCall'' \<in> set xs
          then Inl (Exception ''TypeError: list indices must be integers'')
          else Inr OtherPart
      | _ \<Rightarrow> Inl (Exception ''TypeError: argument is not iterable''))"

text \<open>The loop: texts and function calls are collected in order; the first failure ends it.\<close>

fun collect_parts :: "json list \<Rightarrow> json list \<Rightarrow> (string \<times> json) list
    \<Rightarrow> exn + (json list \<times> (string \<times> json) list)" where
  "collect_parts [] text_parts function_calls = Inr (text_parts, function_calls)"
| "collect_parts (part # parts) text_parts function_calls =
     (case classify_part part of
        Inl e \<Rightarrow> Inl e
      | Inr (TextPart t) \<Rightarrow> collect_parts parts (text_parts @ [t]) function_calls
      | Inr (FunctionCallPart name args) \<Rightarrow>
          collect_parts parts text_parts (function_calls @ [(name, args)])
      | Inr OtherPart \<Rightarrow> collect_parts parts text_parts function_calls)"

text \<open>\<^verbatim>\<open>"".join(text_parts)\<close>: a TypeError unless every item is a string.\<close>

fun join_texts :: "json list \<Rightarrow> exn + string" where
  "join_texts [] = Inr []"
| "join_texts (JStr s # ts) =
     (case join_texts ts of Inl e \<Rightarrow> Inl e | Inr r \<Rightarrow> Inr (s @ r))"
| "join_texts (_ # ts) = Inl (Exception ''TypeError: expected str instance'')"

text \<open>
  The part of the response that depends on the upstream body: the message of the single
  choice, its finish reason, and the usage block (prompt, completion and total tokens).
  Ids and the creation time are left out; \<^verbatim>\<open>tool_calls\<close> holds each call's name and
  the value whose \<^verbatim>\<open>json.dumps\<close> is its \<^verbatim>\<open>arguments\<close>.
\<close>

record OpenAIChoice =
  content :: "string option"
  tool_calls :: "(string \<times> json) list option"
  finish_reason :: string
  usage :: "int \<times> int \<times> int"

text \<open>
  \<^verbatim>\<open>OpenAIUsage(...)\<close> from \<^verbatim>\<open>usageMetadata\<close> (\<^verbatim>\<open>response_mapper.py\<close> l.71-76): each
  count defaults to 0 and is validated as an integer.
\<close>

definition usage_of :: "json \<Rightarrow> exn + int \<times> int \<times> int" where
  "usage_of gemini_response =
     (case dict_get_default gemini_response ''usageMetadata'' (JObj []) of
        Inl e \<Rightarrow> Inl e
      | Inr usage_meta \<Rightarrow>
     (case dict_get usage_meta ''promptTokenCount'' of
        Inl e \<Rightarrow> Inl e
      | Inr p \<Rightarrow>
     (case dict_get usage_meta ''candidatesTokenCount'' of
        Inl e \<Rightarrow> Inl e
      | Inr c \<Rightarrow>
     (case dict_get usage_meta ''totalTokenCount'' of
        Inl e \<Rightarrow> Inl e
      | Inr t \<Rightarrow>
     (case pyd_int_default p 0 of
        Inl e \<Rightarrow> Inl e
      | Inr prompt_tokens \<Rightarrow>
     (case pyd_int_default c 0 of
        Inl e \<Rightarrow> Inl e
      | Inr completion_tokens \<Rightarrow>
     (case pyd_int_default t 0 of
        Inl e \<Rightarrow> Inl e
      | Inr total_tokens \<Rightarrow> Inr (prompt_tokens, completion_tokens, total_tokens))))))))"

text \<open>
  \<^verbatim>\<open>transform_gemini_to_openai\<close>, \<^verbatim>\<open>response_mapper.py\<close> l.30-95. The finish reason
  starts as \<^verbatim>\<open>"stop"\<close>, becomes \<^verbatim>\<open>"tool_calls"\<close> when function calls were collected,
  and is then overwritten by the mapping of the candidate's \<^verbatim>\<open>finishReason\<close>:
  \<^verbatim>\<open>STOP\<close> gives \<^verbatim>\<open>"stop"\<close>, \<^verbatim>\<open>MAX_TOKENS\<close> gives \<^verbatim>\<open>"length"\<close>.
\<close>

definition transform_gemini_to_openai :: "json \<Rightarrow> exn + OpenAIChoice" where
  "transform_gemini_to_openai gemini_response =
     (case dict_get_default gemini_response ''candidates'' (JArr []) of
        Inl e \<Rightarrow> Inl e
      | Inr candidates \<Rightarrow>
          if \<not> json_truthy candidates
          then (case usage_of gemini_response of
                  Inl e \<Rightarrow> Inl e
                | Inr u \<Rightarrow>
                    Inr \<lparr>content = None, tool_calls = None, finish_reason = ''stop'',
                         usage = u\<rparr>)
          else
            (case first_candidate candidates of
               Inl e \<Rightarrow> Inl e
             | Inr candidate \<Rightarrow>
            (case dict_get_default candidate ''content'' (JObj []) of
               Inl e \<Rightarrow> Inl e
             | Inr cont \<Rightarrow>
            (case dict_get_default cont ''parts'' (JArr []) of
               Inl e \<Rightarrow> Inl e
             | Inr parts \<Rightarrow>
            (case iter_json parts of
               Inl e \<Rightarrow> Inl e
             | Inr ps \<Rightarrow>
            (case collect_parts ps [] [] of
               Inl e \<Rightarrow> Inl e
             | Inr (text_parts, function_calls) \<Rightarrow>
            (case (if text_parts = [] then Inr None
                   else (case join_texts text_parts of
                           Inl e \<Rightarrow> Inl e
                         | Inr s \<Rightarrow> Inr (Some s))) of
               Inl e \<Rightarrow> Inl e
             | Inr cnt \<Rightarrow>
            (case dict_get_default candidate ''finishReason'' (JStr '''') of
               Inl e \<Rightarrow> Inl e
             | Inr gemini_finish \<Rightarrow>
                 (let finish0 = ''stop'';
                      finish1 = (if function_calls = [] then finish0 else ''tool_calls'');
                      finish2 = (if gemini_finish = JStr ''STOP'' then ''stop''
                                 else if gemini_finish = JStr ''MAX_TOKENS'' then ''length''
                                 else finish1)
                  in case usage_of gemini_response of
                       Inl e \<Rightarrow> Inl e
                     | Inr u \<Rightarrow>
                         Inr \<lparr>content = cnt,
                              tool_calls =
                                (if function_calls = [] then None else Some function_calls),
                              finish_reason = finish2, usage = u\<rparr>)))))))))"

text \<open>
  An upstream body as Gemini sends it for a tool call: one \<^verbatim>\<open>functionCall\<close> part and
  \<^verbatim>\<open>finishReason: "STOP"\<close>.
\<close>

definition tool_call_response :: json where
  "tool_call_response =
     JObj [(''candidates'', JArr [JObj
        [(''content'', JObj [(''parts'', JArr [JObj
            [(''functionCall'', JObj [(''name'', JStr ''get_weather''),
                                      (''args'', JObj [(''city'', JStr ''Paris'')])])]])]),
         (''finishReason'', JStr ''STOP'')]]),
           (''usageMetadata'', JObj [(''promptTokenCount'', JInt 12),
                                     (''candidatesTokenCount'', JInt 7),
                                     (''totalTokenCount'', JInt 19)])]"

section \<open>OAuth client\<close>

text \<open>
  What an \<^verbatim>\<open>httpx\<close> call gives back: a transport error (an exception of the client),
  or a response with its status, its text and the value of \<^verbatim>\<open>response.json()\<close>
  (\<open>None\<close> when the text is not JSON, where \<^verbatim>\<open>json()\<close> raises a JSONDecodeError,
  a ValueError).
\<close>

record http_response =
  status_code :: nat
  body_text :: string
  body_json :: "json option"

datatype http_outcome = TransportError string | Response http_response

text \<open>
  \<^verbatim>\<open>TokenResponse\<close> (\<^verbatim>\<open>oauth.py\<close> l.30-35) and the validation pydantic runs on
  construction: a required string, a required integer, a string with a default, two
  optional strings; other keys are ignored.
\<close>

record TokenResponse =
  tr_access_token :: string
  tr_expires_in :: int
  tr_token_type :: string
  tr_refresh_token :: "string option"
  tr_scope :: "string option"

definition make_TokenResponse :: "(string \<times> json) list \<Rightarrow> exn + TokenResponse" where
  "make_TokenResponse kvs =
     (case pyd_str (map_of kvs ''access_token'') of
        Inl e \<Rightarrow> Inl e
      | Inr acc \<Rightarrow>
     (case pyd_int (map_of kvs ''expires_in'') of
        Inl e \<Rightarrow> Inl e
      | Inr ex \<Rightarrow>
     (case pyd_str_default (map_of kvs ''token_type'') ''Bearer'' of
        Inl e \<Rightarrow> Inl e
      | Inr tt \<Rightarrow>
     (case pyd_opt_str (map_of kvs ''refresh_token'') of
        Inl e \<Rightarrow> Inl e
      | Inr rt \<Rightarrow>
     (case pyd_opt_str (map_of kvs ''scope'') of
        Inl e \<Rightarrow> Inl e
      | Inr sc \<Rightarrow>
          Inr \<lparr>tr_access_token = acc, tr_expires_in = ex, tr_token_type = tt,
               tr_refresh_token = rt, tr_scope = sc\<rparr>)))))"

text \<open>
  \<^verbatim>\<open>refresh_access_token\<close>, \<^verbatim>\<open>oauth.py\<close> l.114-142. The argument \<open>post_token\<close> is the
  outcome of the POST to the token endpoint. A transport error propagates; a status
  other than 200 raises \<^verbatim>\<open>Exception("Token refresh failed: ...")\<close>; on 200 the old
  refresh token is put into the parsed body when that has no \<^verbatim>\<open>refresh_token\<close> key,
  and the body is validated. A body that is not a dict fails in the membership test, the
  assignment or the construction.
\<close>

definition refresh_access_token :: "http_outcome \<Rightarrow> string \<Rightarrow> exn + TokenResponse" where
  "refresh_access_token post_token refresh_token =
     (case post_token of
        TransportError m \<Rightarrow> Inl (Exception m)
      | Response response \<Rightarrow>
          if status_code response = 200 then
            (case body_json response of
               None \<Rightarrow> Inl (ValueError ''JSONDecodeError'')
             | Some (JObj json_data) \<Rightarrow>
                 make_TokenResponse
                   (if ''refresh_token'' \<notin> fst ` set json_data
                    then json_data @ [(''refresh_token'', JStr refresh_token)]
                    else json_data)
             | Some _ \<Rightarrow> Inl (Exception ''TypeError''))
          else Inl (Exception (''Token refresh failed: '' @ body_text response)))"

text \<open>The fallback project of \<^verbatim>\<open>oauth.py\<close> l.218 and \<^verbatim>\<open>token_manager.py\<close> l.226, l.281.\<close>

definition fallback_project_id :: string where
  "fallback_project_id = ''bamboo-precept-lgxtn''"

text \<open>
  A value stored in a field declared \<^verbatim>\<open>Optional[str]\<close>: a JSON string is kept, a
  missing key and \<^verbatim>\<open>null\<close> are \<^verbatim>\<open>None\<close>. Python would store a value of another
  type as it is; such a value is outside the declared type and is read as \<^verbatim>\<open>None\<close>
  here.
\<close>

definition as_opt_str :: "json option \<Rightarrow> string option" where
  "as_opt_str v = (case v of Some (JStr s) \<Rightarrow> Some s | _ \<Rightarrow> None)"

text \<open>
  \<^verbatim>\<open>t and t.get("id")\<close> for \<^verbatim>\<open>t = data.get(...)\<close>: falsy when \<^verbatim>\<open>t\<close> is missing or
  falsy, the value under \<^verbatim>\<open>id\<close> when \<^verbatim>\<open>t\<close> is a non-empty dict, and an
  AttributeError when \<^verbatim>\<open>t\<close> is a truthy value of another type.
\<close>

definition tier_id :: "json option \<Rightarrow> exn + json option" where
  "tier_id t =
     (case t of
        None \<Rightarrow> Inr None
      | Some v \<Rightarrow>
          if \<not> json_truthy v then Inr None
          else (case v of
                  JObj kvs \<Rightarrow> Inr (map_of kvs ''id'')
                | _ \<Rightarrow> Inl (Exception ''AttributeError: object has no attribute get'')))"

definition opt_truthy :: "json option \<Rightarrow> bool" where
  "opt_truthy v = (case v of None \<Rightarrow> False | Some x \<Rightarrow> json_truthy x)"

text \<open>
  The body of the \<^verbatim>\<open>try\<close> of \<^verbatim>\<open>fetch_account_info\<close> (\<^verbatim>\<open>oauth.py\<close> l.195-213):
  \<open>Inl\<close> is an exception raised inside it, \<open>Inr None\<close> is falling out of it without a
  \<^verbatim>\<open>return\<close> (a status other than 200), \<open>Inr (Some r)\<close> is \<^verbatim>\<open>return r\<close>.
\<close>

definition fetch_account_info_try ::
    "http_outcome \<Rightarrow> exn + (string option \<times> string option) option" where
  "fetch_account_info_try post_load =
     (case post_load of
        TransportError m \<Rightarrow> Inl (Exception m)
      | Response response \<Rightarrow>
          if status_code response = 200 then
            (case body_json response of
               None \<Rightarrow> Inl (ValueError ''JSONDecodeError'')
             | Some data \<Rightarrow>
            (case dict_get data ''cloudaicompanionProject'' of
               Inl e \<Rightarrow> Inl e
             | Inr project_id \<Rightarrow>
            (case dict_get data ''paidTier'' of
               Inl e \<Rightarrow> Inl e
             | Inr paid_tier \<Rightarrow>
            (case dict_get data ''currentTier'' of
               Inl e \<Rightarrow> Inl e
             | Inr current_tier \<Rightarrow>
            (case tier_id paid_tier of
               Inl e \<Rightarrow> Inl e
             | Inr paid_id \<Rightarrow>
                 if opt_truthy paid_id
                 then Inr (Some (as_opt_str project_id, as_opt_str paid_id))
                 else
                   (case tier_id current_tier of
                      Inl e \<Rightarrow> Inl e
                    | Inr current_id \<Rightarrow>
                        if opt_truthy current_id
                        then Inr (Some (as_opt_str project_id, as_opt_str current_id))
                        else Inr (Some (as_opt_str project_id, None))))))))
          else Inr None)"

text \<open>
  \<^verbatim>\<open>fetch_account_info\<close>, \<^verbatim>\<open>oauth.py\<close> l.168-218: the \<^verbatim>\<open>try\<close> above under
  \<^verbatim>\<open>except Exception\<close>, which prints and falls through to the final
  \<^verbatim>\<open>return ("bamboo-precept-lgxtn", None)\<close>. The result is a sum so that a failure of
  the call would be a value \<open>Inl\<close>.
\<close>

definition fetch_account_info ::
    "http_outcome \<Rightarrow> exn + (string option \<times> string option)" where
  "fetch_account_info post_load =
     (case fetch_account_info_try post_load of
        Inr (Some r) \<Rightarrow> Inr r
      | Inr None \<Rightarrow> Inr (Some fallback_project_id, None)
      | Inl e \<Rightarrow> Inr (Some fallback_project_id, None))"

section \<open>Token manager\<close>

text \<open>
  \<^verbatim>\<open>ProxyToken\<close> (\<^verbatim>\<open>token_manager.py\<close> l.23-34) and the state of \<^verbatim>\<open>TokenManager\<close>
  (l.49-54). The pool \<^verbatim>\<open>_tokens\<close> is a dict from account id to token, written only by
  \<^verbatim>\<open>load_accounts\<close> and \<^verbatim>\<open>reload_account\<close>, which store each token under its own
  \<^verbatim>\<open>account_id\<close>; it is modelled by the list of its values in insertion order, and the
  uniqueness of the keys is the predicate \<open>pool_ok\<close>. Times and quota scores are
  floats, held as their real values. The two locks are not modelled: every operation runs
  alone. \<open>metadata_fetches\<close> is a ghost field, not part of the class: the account ids
  for which \<^verbatim>\<open>_fetch_metadata\<close> was called, in order.
\<close>

record ProxyToken =
  account_id :: string
  email :: string
  access_token :: string
  refresh_token :: string
  expires_in :: int
  expiry_timestamp :: int
  project_id :: "string option"
  subscription_tier :: "string option"
  average_quota :: "real option"

record TokenManager =
  tokens :: "ProxyToken list"
  current_index :: nat
  last_used :: "(string \<times> real) option"
  metadata_fetches :: "string list"

definition pool_ok :: "TokenManager \<Rightarrow> bool" where
  "pool_ok st = distinct (map account_id (tokens st))"

text \<open>
  What lies outside the process, for the duration of one operation: the answers of the
  token endpoint (by refresh token) and of \<^verbatim>\<open>loadCodeAssist\<close> (by access token), the
  exception a database write raises if any, and the outcome of one quota poll
  (\<^verbatim>\<open>token_manager.py\<close> l.367-404: the new rounded average when one is stored).
\<close>

record environment =
  token_endpoint :: "string \<Rightarrow> http_outcome"
  load_code_assist :: "string \<Rightarrow> http_outcome"
  save_token_error :: "ProxyToken \<Rightarrow> exn option"
  save_metadata_error :: "string \<Rightarrow> exn option"
  quota_poll :: "ProxyToken \<Rightarrow> real option"

text \<open>
  The clock during one call of \<^verbatim>\<open>get_token\<close>. The code reads \<^verbatim>\<open>time.time()\<close> for
  the sticky test (l.133), when it records the sticky pair (l.213), for the expiry test
  (l.216) and again inside \<^verbatim>\<open>_refresh_token\<close> (l.240), before the awaited refresh, the
  database writes and the metadata fetch; \<open>at_return\<close> is the time at which the call
  returns, which the code does not read.
\<close>

record clock =
  at_sticky :: real
  at_select :: real
  at_check :: real
  at_refresh :: real
  at_return :: real

text \<open>A call during which the clock does not advance.\<close>

definition frozen :: "real \<Rightarrow> clock" where
  "frozen t = \<lparr>at_sticky = t, at_select = t, at_check = t, at_refresh = t, at_return = t\<rparr>"

text \<open>A token object is mutated in place, so the pool sees the change.\<close>

definition store :: "ProxyToken \<Rightarrow> TokenManager \<Rightarrow> TokenManager" where
  "store tok st =
     st\<lparr>tokens := map (\<lambda>t. if account_id t = account_id tok then tok else t) (tokens st)\<rparr>"

text \<open>
  \<^verbatim>\<open>t.average_quota is not None and t.average_quota > 0.05\<close>; the literal is the
  double nearest to 0.05.
\<close>

definition has_quota :: "ProxyToken \<Rightarrow> bool" where
  "has_quota t =
     (case average_quota t of None \<Rightarrow> False | Some q \<Rightarrow> q > round_double 0.05)"

text \<open>\<^verbatim>\<open>t.average_quota or 0\<close>\<close>

definition quota_or_0 :: "ProxyToken \<Rightarrow> real" where
  "quota_or_0 t = (case average_quota t of None \<Rightarrow> 0 | Some q \<Rightarrow> q)"

text \<open>
  \<^verbatim>\<open>xs.sort(key=lambda t: t.average_quota or 0, reverse=True)\<close>: descending, and stable
  (equal keys keep their order, also under \<^verbatim>\<open>reverse=True\<close>).
\<close>

definition sort_by_quota :: "ProxyToken list \<Rightarrow> ProxyToken list" where
  "sort_by_quota xs = sort_key (\<lambda>t. - quota_or_0 t) xs"

text \<open>
  \<^verbatim>\<open>t.subscription_tier and ('pro' in t.subscription_tier.lower() or 'ultra' in ...)\<close>
\<close>

definition is_pro :: "ProxyToken \<Rightarrow> bool" where
  "is_pro t =
     (case subscription_tier t of
        None \<Rightarrow> False
      | Some tier \<Rightarrow>
          tier \<noteq> [] \<and> (str_contains ''pro'' (str_lower tier) \<or> str_contains ''ultra'' (str_lower tier)))"

text \<open>
  \<^verbatim>\<open>idx = self._current_index % len(xs); self._current_index += 1; xs[idx]\<close>. Every call
  site has a non-empty list; on an empty one the modulo would raise.
\<close>

definition round_robin :: "ProxyToken list \<Rightarrow> TokenManager \<Rightarrow> (exn + ProxyToken) \<times> TokenManager" where
  "round_robin xs st =
     (if xs = [] then (Inl (Exception ''ZeroDivisionError''), st)
      else (Inr (xs ! (current_index st mod length xs)),
            st\<lparr>current_index := current_index st + 1\<rparr>))"

text \<open>
  Step 1 of \<^verbatim>\<open>get_token\<close> (l.127-137): the 60-second sticky session, with the
  float difference \<^verbatim>\<open>time.time() - last_time\<close>. The lookup of \<^verbatim>\<open>last_id\<close> in the
  dict is the search for the entry with that account id.
\<close>

definition sticky_token :: "real \<Rightarrow> string \<Rightarrow> bool \<Rightarrow> TokenManager \<Rightarrow> ProxyToken option" where
  "sticky_token now quota_group force_rotate st =
     (if \<not> force_rotate \<and> quota_group \<noteq> ''image_gen'' then
        (case last_used st of
           None \<Rightarrow> None
         | Some (last_id, last_time) \<Rightarrow>
             if fsub now last_time < 60
             then find (\<lambda>t. account_id t = last_id) (tokens st)
             else None)
      else None)"

text \<open>Step 2 for image generation (l.142-178); the sticky pair is not touched.\<close>

definition select_image_gen :: "bool \<Rightarrow> TokenManager \<Rightarrow> (exn + ProxyToken) \<times> TokenManager" where
  "select_image_gen force_rotate st =
     (let all_tokens = tokens st;
          pro_tokens = filter is_pro all_tokens
      in if all_tokens = []
         then (Inl (ValueError ''No accounts available for image generation.''), st)
         else if force_rotate then round_robin all_tokens st
         else if pro_tokens \<noteq> [] then
           (let pro_with_quota = filter has_quota pro_tokens
            in if pro_with_quota \<noteq> []
               then (Inr (sort_by_quota pro_with_quota ! 0), st)
               else round_robin pro_tokens st)
         else round_robin all_tokens st)"

text \<open>
  Step 2 for the other quota groups (l.180-213): the tokens with a score above 0.05,
  sorted; with three or more of them, a round robin over those of the first three whose
  score is at least the float product \<^verbatim>\<open>top_quota * 0.9\<close>, when there is more than one;
  otherwise the best. With no scored token, a round robin over the whole pool (the key
  at the index, looked up in the dict, is the value at the index). Then the sticky pair
  is set, with a reading of the clock of its own.
\<close>

definition select_normal :: "real \<Rightarrow> TokenManager \<Rightarrow> (exn + ProxyToken) \<times> TokenManager" where
  "select_normal now st =
     (let tokens_with_quota = filter has_quota (tokens st);
          (selected, st1) =
            (if tokens_with_quota \<noteq> [] then
               (let sorted_tokens = sort_by_quota tokens_with_quota
                in if length sorted_tokens \<ge> 3 then
                     (let top_quota = quota_or_0 (sorted_tokens ! 0);
                          similar = filter (\<lambda>t. quota_or_0 t \<ge> fmul top_quota (round_double 0.9))
                                      (take 3 sorted_tokens)
                      in if length similar > 1 then round_robin similar st
                         else (Inr (sorted_tokens ! 0), st))
                   else (Inr (sorted_tokens ! 0), st))
             else round_robin (tokens st) st)
      in case selected of
           Inl e \<Rightarrow> (Inl e, st1)
         | Inr t \<Rightarrow> (Inr t, st1\<lparr>last_used := Some (account_id t, now)\<rparr>))"

text \<open>Steps 1 and 2 together (l.121-213), each with its own reading of the clock.\<close>

definition select_token ::
    "clock \<Rightarrow> string \<Rightarrow> bool \<Rightarrow> TokenManager \<Rightarrow> (exn + ProxyToken) \<times> TokenManager" where
  "select_token c quota_group force_rotate st =
     (if tokens st = []
      then (Inl (ValueError ''Token pool is empty. Please add accounts first.''), st)
      else (case sticky_token (at_sticky c) quota_group force_rotate st of
              Some t \<Rightarrow> (Inr t, st)
            | None \<Rightarrow>
                if quota_group = ''image_gen'' then select_image_gen force_rotate st
                else select_normal (at_select c) st))"

text \<open>
  \<^verbatim>\<open>_refresh_token\<close> (l.236-261); \<open>now\<close> is its own reading of the clock (l.240). The
  expiry is checked again under the lock; the refresh call may raise, and the
  \<^verbatim>\<open>except\<close> re-raises; the three fields are assigned before the database write, so a
  failing write leaves them assigned.
\<close>

definition TokenManager_refresh_token ::
    "environment \<Rightarrow> real \<Rightarrow> ProxyToken \<Rightarrow> TokenManager \<Rightarrow> (exn + ProxyToken) \<times> TokenManager" where
  "TokenManager_refresh_token env now token st =
     (if py_int now < expiry_timestamp token - 300 then (Inr token, st)
      else
        (case refresh_access_token (token_endpoint env (refresh_token token)) (refresh_token token) of
           Inl e \<Rightarrow> (Inl e, st)
         | Inr new_token \<Rightarrow>
             (let token' = token\<lparr>access_token := tr_access_token new_token,
                                 expires_in := tr_expires_in new_token,
                                 expiry_timestamp := py_int now + tr_expires_in new_token\<rparr>;
                  st' = store token' st
              in case save_token_error env token' of
                   Some e \<Rightarrow> (Inl e, st')
                 | None \<Rightarrow> (Inr token', st'))))"

text \<open>
  \<^verbatim>\<open>_fetch_metadata\<close> (l.263-282). Both fields are assigned from the answer; an exception
  anywhere in the \<^verbatim>\<open>try\<close> (the fetch, the database write) puts the fallback project in.
\<close>

definition TokenManager_fetch_metadata ::
    "environment \<Rightarrow> ProxyToken \<Rightarrow> TokenManager \<Rightarrow> ProxyToken \<times> TokenManager" where
  "TokenManager_fetch_metadata env token st =
     (let token' =
            (case fetch_account_info (load_code_assist env (access_token token)) of
               Inl e \<Rightarrow> token\<lparr>project_id := Some fallback_project_id\<rparr>
             | Inr (pid, tier) \<Rightarrow>
                 (let token1 = token\<lparr>project_id := pid, subscription_tier := tier\<rparr>
                  in case save_metadata_error env (account_id token) of
                       Some e \<Rightarrow> token1\<lparr>project_id := Some fallback_project_id\<rparr>
                     | None \<Rightarrow> token1))
      in (token', (store token' st)\<lparr>metadata_fetches := metadata_fetches st @ [account_id token]\<rparr>))"

text \<open>
  \<^verbatim>\<open>get_token\<close> (l.103-228) up to its \<^verbatim>\<open>return\<close>: selection, refresh within 300
  seconds of expiry, metadata when the project id is missing or empty. The result is the
  local variable \<^verbatim>\<open>selected_token\<close>. The expiry test uses the reading of l.216, the
  refresh its own later reading.
\<close>

definition get_token_selected ::
    "environment \<Rightarrow> clock \<Rightarrow> string \<Rightarrow> bool \<Rightarrow> TokenManager \<Rightarrow> (exn + ProxyToken) \<times> TokenManager" where
  "get_token_selected env c quota_group force_rotate st =
     (case select_token c quota_group force_rotate st of
        (Inl e, st1) \<Rightarrow> (Inl e, st1)
      | (Inr selected, st1) \<Rightarrow>
          (case (if py_int (at_check c) \<ge> expiry_timestamp selected - 300
                 then TokenManager_refresh_token env (at_refresh c) selected st1
                 else (Inr selected, st1)) of
             (Inl e, st2) \<Rightarrow> (Inl e, st2)
           | (Inr selected2, st2) \<Rightarrow>
               if \<not> str_truthy (project_id selected2)
               then (case TokenManager_fetch_metadata env selected2 st2 of
                       (selected3, st3) \<Rightarrow> (Inr selected3, st3))
               else (Inr selected2, st2)))"

text \<open>\<^verbatim>\<open>selected_token.project_id or "bamboo-precept-lgxtn"\<close>\<close>

definition project_or_fallback :: "ProxyToken \<Rightarrow> string" where
  "project_or_fallback t =
     (case project_id t of
        None \<Rightarrow> fallback_project_id
      | Some p \<Rightarrow> if p = [] then fallback_project_id else p)"

text \<open>\<^verbatim>\<open>get_token\<close>: the triple of access token, project id and email.\<close>

definition get_token ::
    "environment \<Rightarrow> clock \<Rightarrow> string \<Rightarrow> bool \<Rightarrow> TokenManager
      \<Rightarrow> (exn + string \<times> string \<times> string) \<times> TokenManager" where
  "get_token env c quota_group force_rotate st =
     (case get_token_selected env c quota_group force_rotate st of
        (Inl e, st') \<Rightarrow> (Inl e, st')
      | (Inr t, st') \<Rightarrow> (Inr (access_token t, project_or_fallback t, email t), st'))"



text \<open>
  The selection rule of the specification for a non-empty set \<open>S\<close> of scored entries,
  written from its words, to be compared with \<open>select_normal\<close>: sort \<open>S\<close> by score
  descending; \<open>T\<close> is the entries among the first three with a score of at least 0.9
  times the top score (the product of the two floats); if \<open>T\<close> has more than one entry,
  round-robin over \<open>T\<close>, otherwise pick the first.
\<close>

definition tie_band :: "ProxyToken list \<Rightarrow> ProxyToken list" where
  "tie_band sorted_tokens =
     filter (\<lambda>t. quota_or_0 t \<ge> fmul (round_double 0.9) (quota_or_0 (sorted_tokens ! 0)))
       (take 3 sorted_tokens)"

definition spec_weighted_pick :: "ProxyToken list \<Rightarrow> nat \<Rightarrow> ProxyToken" where
  "spec_weighted_pick S counter =
     (let sorted_tokens = sort_by_quota S;
          T = tie_band sorted_tokens
      in if length T > 1 then T ! (counter mod length T) else sorted_tokens ! 0)"




section \<open>Retry loop of the chat endpoints\<close>

text \<open>
  \<^verbatim>\<open>chat_completions\<close> (\<^verbatim>\<open>routes_openai.py\<close> l.90-153) and \<^verbatim>\<open>messages\<close>
  (\<^verbatim>\<open>routes_claude.py\<close> l.84-141), after the request body has been parsed. What an
  attempt does once it holds credentials (building the upstream body, the upstream call,
  mapping the answer, or opening the stream) is given from outside, per attempt: it
  returns a response, raises \<^verbatim>\<open>httpx.HTTPStatusError\<close> with a status, or raises
  something else.
\<close>

datatype attempt_outcome =
    Succeeded json
  | HTTPStatusError nat string
  | Raised exn

record request_world =
  env_at :: "nat \<Rightarrow> environment"
  clock_at :: "nat \<Rightarrow> clock"
  upstream_call :: "nat \<Rightarrow> string \<times> string \<times> string \<Rightarrow> attempt_outcome"

datatype http_result =
    Respond json
  | HTTPException nat string
  | Unhandled exn

text \<open>
  The local variables of the handler that outlive an attempt: \<^verbatim>\<open>last_error\<close>,
  \<^verbatim>\<open>email\<close> (\<open>None\<close> while it is unbound: it is first assigned by the unpacking of
  the result of \<^verbatim>\<open>get_token\<close>), the token manager, and as a ghost the
  \<^verbatim>\<open>force_rotate\<close> flag of every acquisition made.
\<close>

record loop_state =
  last_error :: "exn option"
  email_var :: "string option"
  manager :: TokenManager
  acquisitions :: "bool list"

definition rotate_statuses :: "nat list" where
  "rotate_statuses = [429, 403, 500, 502, 503, 504]"

text \<open>
  The \<^verbatim>\<open>for attempt in range(max_retries)\<close> loop; the first argument counts the rounds
  left. \<open>Some r\<close> is leaving the handler from inside the loop, \<open>None\<close> is the loop
  running out. The handlers: \<^verbatim>\<open>HTTPStatusError\<close> continues on the six statuses and
  raises the status otherwise; \<^verbatim>\<open>ValueError\<close> raises 503; any other exception
  continues. The first and the last of these print \<^verbatim>\<open>email\<close>, which raises
  UnboundLocalError inside the handler while \<^verbatim>\<open>email\<close> is unbound.
\<close>

fun retry_loop ::
    "nat \<Rightarrow> request_world \<Rightarrow> string \<Rightarrow> nat \<Rightarrow> loop_state \<Rightarrow> http_result option \<times> loop_state" where
  "retry_loop 0 w quota_group attempt ls = (None, ls)"
| "retry_loop (Suc n) w quota_group attempt ls =
     (let force_rotate = (attempt > 0);
          ls0 = ls\<lparr>acquisitions := acquisitions ls @ [force_rotate]\<rparr>
      in case get_token (env_at w attempt) (clock_at w attempt) quota_group force_rotate (manager ls) of
           (Inl (ValueError m), st') \<Rightarrow>
             (Some (HTTPException 503 m), ls0\<lparr>manager := st'\<rparr>)
         | (Inl e, st') \<Rightarrow>
             (case email_var ls of
                None \<Rightarrow>
                  (Some (Unhandled (UnboundLocalError ''email'')),
                   ls0\<lparr>manager := st', last_error := Some e\<rparr>)
              | Some _ \<Rightarrow>
                  retry_loop n w quota_group (attempt + 1)
                    (ls0\<lparr>manager := st', last_error := Some e\<rparr>))
         | (Inr (token, project, mail), st') \<Rightarrow>
             (let ls1 = ls0\<lparr>manager := st', email_var := Some mail\<rparr>
              in case upstream_call w attempt (token, project, mail) of
                   Succeeded r \<Rightarrow> (Some (Respond r), ls1)
                 | HTTPStatusError status msg \<Rightarrow>
                     if status \<in> set rotate_statuses
                     then retry_loop n w quota_group (attempt + 1)
                            (ls1\<lparr>last_error := Some (Exception msg)\<rparr>)
                     else (Some (HTTPException status (''Upstream error: '' @ msg)),
                           ls1\<lparr>last_error := Some (Exception msg)\<rparr>)
                 | Raised (ValueError m) \<Rightarrow> (Some (HTTPException 503 m), ls1)
                 | Raised e \<Rightarrow>
                     retry_loop n w quota_group (attempt + 1) (ls1\<lparr>last_error := Some e\<rparr>)))"

text \<open>
  What the handlers continue on: one of the six statuses, or an exception that is neither
  an \<^verbatim>\<open>HTTPStatusError\<close> nor a \<^verbatim>\<open>ValueError\<close>.
\<close>

definition rotate_eligible :: "attempt_outcome \<Rightarrow> bool" where
  "rotate_eligible outcome =
     (case outcome of
        Succeeded r \<Rightarrow> False
      | HTTPStatusError status msg \<Rightarrow> status \<in> set rotate_statuses
      | Raised (ValueError m) \<Rightarrow> False
      | Raised e \<Rightarrow> True)"

text \<open>\<^verbatim>\<open>f"All accounts exhausted: {last_error}"\<close>\<close>

definition exhausted_detail :: "exn option \<Rightarrow> string" where
  "exhausted_detail e =
     ''All accounts exhausted: '' @ (case e of None \<Rightarrow> ''None'' | Some x \<Rightarrow> str_of_exn x)"

text \<open>
  The handler around the loop: \<^verbatim>\<open>max_retries = max(account_count, 5)\<close>, and after the
  loop the 429. \<^verbatim>\<open>chat_completions\<close> passes \<^verbatim>\<open>email\<close> to \<^verbatim>\<open>log_usage\<close> first,
  \<^verbatim>\<open>messages\<close> does not.
\<close>

definition dispatch :: "string \<Rightarrow> bool \<Rightarrow> request_world \<Rightarrow> TokenManager \<Rightarrow> http_result \<times> loop_state" where
  "dispatch quota_group logs_email w st =
     (let account_count = length (tokens st);
          max_retries = max account_count 5
      in case retry_loop max_retries w quota_group 0
                \<lparr>last_error = None, email_var = None, manager = st, acquisitions = []\<rparr> of
           (Some r, ls) \<Rightarrow> (r, ls)
         | (None, ls) \<Rightarrow>
             if logs_email \<and> email_var ls = None
             then (Unhandled (UnboundLocalError ''email''), ls)
             else (HTTPException 429 (exhausted_detail (last_error ls)), ls))"

definition chat_completions :: "request_world \<Rightarrow> TokenManager \<Rightarrow> http_result \<times> loop_state" where
  "chat_completions w st = dispatch ''gemini'' True w st"

definition messages :: "request_world \<Rightarrow> TokenManager \<Rightarrow> http_result \<times> loop_state" where
  "messages w st = dispatch ''claude'' False w st"

section \<open>Concrete pools and environments\<close>

text \<open>Two accounts with valid tokens and a project, scored or not.\<close>

definition account_a :: ProxyToken where
  "account_a =
     \<lparr>account_id = ''a'', email = ''a@example.com'', access_token = ''access-a'',
      refresh_token = ''refresh-a'', expires_in = 3599, expiry_timestamp = 100000,
      project_id = Some ''project-a'', subscription_tier = Some ''free-tier'',
      average_quota = None\<rparr>"

definition account_b :: ProxyToken where
  "account_b =
     \<lparr>account_id = ''b'', email = ''b@example.com'', access_token = ''access-b'',
      refresh_token = ''refresh-b'', expires_in = 3599, expiry_timestamp = 100000,
      project_id = Some ''project-b'', subscription_tier = Some ''free-tier'',
      average_quota = None\<rparr>"

definition pool_ab :: TokenManager where
  "pool_ab = \<lparr>tokens = [account_a, account_b], current_index = 0, last_used = None,
              metadata_fetches = []\<rparr>"

text \<open>The same two accounts with equal scores (0.75 is a double), the counter at one.\<close>

definition pool_scored :: TokenManager where
  "pool_scored =
     \<lparr>tokens = [account_a\<lparr>average_quota := Some 0.75\<rparr>, account_b\<lparr>average_quota := Some 0.75\<rparr>],
      current_index = 1, last_used = None, metadata_fetches = []\<rparr>"

text \<open>An account whose token has expired, and one with no project yet.\<close>

definition account_expired :: ProxyToken where
  "account_expired = account_a\<lparr>expiry_timestamp := 1000\<rparr>"

definition account_new :: ProxyToken where
  "account_new = account_a\<lparr>project_id := None, subscription_tier := None\<rparr>"

definition pool_expired :: TokenManager where
  "pool_expired = \<lparr>tokens = [account_expired], current_index = 0, last_used = None,
                   metadata_fetches = []\<rparr>"

definition pool_new :: TokenManager where
  "pool_new = \<lparr>tokens = [account_new], current_index = 0, last_used = None,
               metadata_fetches = []\<rparr>"

text \<open>Answers of the outside.\<close>

definition error_response :: "nat \<Rightarrow> http_outcome" where
  "error_response code =
     Response \<lparr>status_code = code, body_text = ''error'', body_json = None\<rparr>"

definition refresh_ok_response :: http_outcome where
  "refresh_ok_response =
     Response \<lparr>status_code = 200, body_text = ''{...}'',
               body_json = Some (JObj [(''access_token'', JStr ''access-new''),
                                       (''expires_in'', JInt 3599)])\<rparr>"

definition load_ok_response :: http_outcome where
  "load_ok_response =
     Response \<lparr>status_code = 200, body_text = ''{...}'',
               body_json = Some (JObj [(''cloudaicompanionProject'', JStr ''project-real''),
                                       (''currentTier'', JObj [(''id'', JStr ''free-tier'')])])\<rparr>"

text \<open>Everything outside is down; and everything outside answers.\<close>

definition env_down :: environment where
  "env_down =
     \<lparr>token_endpoint = (\<lambda>_. error_response 400),
      load_code_assist = (\<lambda>_. error_response 500),
      save_token_error = (\<lambda>_. None),
      save_metadata_error = (\<lambda>_. None),
      quota_poll = (\<lambda>_. None)\<rparr>"

definition env_up :: environment where
  "env_up =
     \<lparr>token_endpoint = (\<lambda>_. refresh_ok_response),
      load_code_assist = (\<lambda>_. load_ok_response),
      save_token_error = (\<lambda>_. None),
      save_metadata_error = (\<lambda>_. None),
      quota_poll = (\<lambda>_. None)\<rparr>"







text \<open>A request handled at time 2000 while the outside is down, upstream answering 503.\<close>

definition world_down :: request_world where
  "world_down =
     \<lparr>env_at = (\<lambda>_. env_down), clock_at = (\<lambda>_. frozen 2000),
      upstream_call = (\<lambda>_ _. HTTPStatusError 503 ''503 Service Unavailable'')\<rparr>"

text \<open>A request handled at time 2000 while upstream answers 429 to every attempt.\<close>

definition world_busy :: request_world where
  "world_busy =
     \<lparr>env_at = (\<lambda>_. env_up), clock_at = (\<lambda>_. frozen 2000),
      upstream_call = (\<lambda>_ _. HTTPStatusError 429 ''429 Too Many Requests'')\<rparr>"

text \<open>The pool of two after a first acquisition at time 0.\<close>

definition pool_ab_after :: TokenManager where
  "pool_ab_after = pool_ab\<lparr>current_index := 1, last_used := Some (''a'', 0)\<rparr>"

text \<open>
  Three scored accounts, the best two within ten percent of each other (the scores are
  doubles).
\<close>

definition account_c :: ProxyToken where
  "account_c =
     \<lparr>account_id = ''c'', email = ''c@example.com'', access_token = ''access-c'',
      refresh_token = ''refresh-c'', expires_in = 3599, expiry_timestamp = 100000,
      project_id = Some ''project-c'', subscription_tier = Some ''free-tier'',
      average_quota = Some 0.5\<rparr>"

definition pool_three :: TokenManager where
  "pool_three =
     \<lparr>tokens = [account_c, account_a\<lparr>average_quota := Some 0.875\<rparr>,
                account_b\<lparr>average_quota := Some 0.8125\<rparr>],
      current_index = 1, last_used = None, metadata_fetches = []\<rparr>"

text \<open>
  Three accounts scored with the doubles of 0.1, 0.09 and 0.06, the counter at one. The
  float product \<^verbatim>\<open>0.1 * 0.9\<close> is 0.09000000000000001, above the double of 0.09.
\<close>

definition pool_boundary :: TokenManager where
  "pool_boundary =
     \<lparr>tokens = [account_a\<lparr>average_quota := Some (round_double 0.1)\<rparr>,
                account_b\<lparr>average_quota := Some (round_double 0.09)\<rparr>,
                account_c\<lparr>average_quota := Some (round_double 0.06)\<rparr>],
      current_index = 1, last_used = None, metadata_fetches = []\<rparr>"

text \<open>The expired account after a refresh at time 2000.\<close>

definition account_refreshed :: ProxyToken where
  "account_refreshed =
     account_expired\<lparr>access_token := ''access-new'', expires_in := 3599,
                      expiry_timestamp := 5599\<rparr>"





text \<open>The expired account first, a healthy account second.\<close>

definition pool_expired_b :: TokenManager where
  "pool_expired_b = \<lparr>tokens = [account_expired, account_b], current_index = 0,
                     last_used = None, metadata_fetches = []\<rparr>"

section \<open>Properties of the schema cleaners\<close>

lemma upper_char_idem: "upper_char (upper_char c) = upper_char c"
proof (cases "97 \<le> (of_char c :: nat) \<and> (of_char c :: nat) \<le> 122")
  case True
  then have "((of_char c :: nat) - 32) mod 256 < 97" by auto
  with True show ?thesis by (simp add: upper_char_def Let_def)
next
  case False
  then show ?thesis by (auto simp: upper_char_def Let_def)
qed

lemma str_upper_idem: "str_upper (str_upper s) = str_upper s"
  by (simp add: str_upper_def upper_char_idem)

lemma upper_type_idem: "upper_type (upper_type kv) = upper_type kv"
  by (cases kv) (auto simp: upper_type_def str_upper_idem split: json.splits)

lemma fst_upper_type: "fst (upper_type kv) = fst kv"
  by (cases kv) (auto simp: upper_type_def split: json.splits)

lemma upper_type_clean:
  assumes "upper_type (k, v) = (k, v)"
  shows "upper_type (k, clean v) = (k, clean v)"
proof (cases v)
  case (JStr s)
  with assms show ?thesis by simp
qed (simp_all add: upper_type_def)

lemma clean_idem: "clean (clean s) = clean s"
proof (induction s rule: clean.induct)
  case (1 kvs)
  define U where "U = map upper_type (filter (\<lambda>(k, v). k \<in> set allowed_keys) kvs)"
  define F where "F = map (\<lambda>(k, v). (k, clean v)) U"
  have IH: "clean (clean v) = clean v" if "(k, v) \<in> set U" for k v
    using 1 that unfolding U_def by blast
  have keys: "k \<in> set allowed_keys" if "(k, v) \<in> set U" for k v
  proof -
    from that obtain kv where "kv \<in> set kvs" "fst kv \<in> set allowed_keys" "(k, v) = upper_type kv"
      unfolding U_def by auto
    then show ?thesis using fst_upper_type [of kv] by (metis fst_conv)
  qed
  have fixed: "upper_type (k, v) = (k, v)" if "(k, v) \<in> set U" for k v
  proof -
    from that obtain kv where "(k, v) = upper_type kv"
      unfolding U_def by auto
    then show ?thesis using upper_type_idem [of kv] by simp
  qed
  have keep: "filter (\<lambda>(k, v). k \<in> set allowed_keys) F = F"
    unfolding F_def using keys by (auto simp: filter_id_conv)
  have "map upper_type F = F"
    unfolding F_def using fixed upper_type_clean by (auto simp: map_idI)
  moreover have "map (\<lambda>(k, v). (k, clean v)) F = F"
    unfolding F_def using IH by auto
  ultimately have "clean (JObj F) = JObj F"
    using keep by simp
  moreover have "clean (JObj kvs) = JObj F"
    by (simp add: F_def U_def)
  ultimately show ?case by simp
next
  case (2 xs)
  then show ?case by (simp add: map_idI)
qed simp_all


lemma upper_type_other: "k \<noteq> ''type'' \<Longrightarrow> upper_type (k, v) = (k, v)"
  by (auto simp: upper_type_def split: json.splits)

lemma clean_json_schema_idem: "clean_json_schema (clean_json_schema s) = clean_json_schema s"
proof (induction s rule: clean_json_schema.induct)
  case (1 kvs)
  define U where "U = map upper_type (filter (\<lambda>(k, v). k \<in> set allowed_keys) kvs)"
  define step :: "string \<times> json \<Rightarrow> string \<times> json" where
    "step = (\<lambda>(k, v).
             if k = ''properties'' then
               (case v of
                  JObj ps \<Rightarrow> (k, JObj (map (\<lambda>(pk, pv). (pk, clean_json_schema pv)) ps))
                | _ \<Rightarrow> (k, v))
             else if k = ''items'' then (k, clean_json_schema v)
             else (k, v))"
  define G where "G = map step U"
  have unfold: "clean_json_schema (JObj xs) =
      JObj (map step (map upper_type (filter (\<lambda>(k, v). k \<in> set allowed_keys) xs)))" for xs
    by (simp add: step_def)
  have IH_props: "clean_json_schema (clean_json_schema pv) = clean_json_schema pv"
    if "(''properties'', JObj ps) \<in> set U" "(pk, pv) \<in> set ps" for ps pk pv
    using "1.IH"(1) [OF _ refl refl refl _ refl] that unfolding U_def by blast
  have IH_items: "clean_json_schema (clean_json_schema v) = clean_json_schema v"
    if "(''items'', v) \<in> set U" for v
    using "1.IH"(2) [OF _ refl _ refl] that unfolding U_def by auto
  have keys: "k \<in> set allowed_keys" if "(k, v) \<in> set U" for k v
  proof -
    from that obtain kv where "kv \<in> set kvs" "fst kv \<in> set allowed_keys" "(k, v) = upper_type kv"
      unfolding U_def by auto
    then show ?thesis using fst_upper_type [of kv] by (metis fst_conv)
  qed
  have fixed: "upper_type (k, v) = (k, v)" if "(k, v) \<in> set U" for k v
  proof -
    from that obtain kv where "(k, v) = upper_type kv"
      unfolding U_def by auto
    then show ?thesis using upper_type_idem [of kv] by simp
  qed
  have fst_step: "fst (step e) = fst e" for e
    by (cases e) (auto simp: step_def split: json.splits)
  have keep: "filter (\<lambda>(k, v). k \<in> set allowed_keys) G = G"
  proof -
    have "fst e \<in> set allowed_keys" if "e \<in> set G" for e
      using that keys fst_step unfolding G_def by force
    then show ?thesis by (auto simp: filter_id_conv)
  qed
  have up: "upper_type (step e) = step e" if "e \<in> set U" for e
  proof (cases e)
    case (Pair k v)
    show ?thesis
    proof (cases "k = ''type''")
      case True
      then have "step e = e" using Pair by (simp add: step_def)
      then show ?thesis using fixed that Pair by simp
    next
      case False
      then show ?thesis
         using upper_type_other [of k "snd (step e)"] fst_step [of e] Pair
         by (metis fst_conv prod.collapse)
    qed
  qed
  have again: "step (step e) = step e" if "e \<in> set U" for e
  proof (cases e)
    case (Pair k v)
    consider (props) ps where "k = ''properties''" "v = JObj ps"
      | (props') "k = ''properties''" "\<And>ps. v \<noteq> JObj ps"
      | (items) "k = ''items''"
      | (other) "k \<noteq> ''properties''" "k \<noteq> ''items''"
      by blast
    then show ?thesis
    proof cases
      case props
      then have "(''properties'', JObj ps) \<in> set U" using that Pair by simp
      then have "map (\<lambda>(pk, pv). (pk, clean_json_schema (clean_json_schema pv))) ps
                 = map (\<lambda>(pk, pv). (pk, clean_json_schema pv)) ps"
        using IH_props by auto
      then show ?thesis using props Pair
        by (simp add: step_def comp_def case_prod_unfold)
    next
      case props'
      then show ?thesis using Pair by (cases v) (auto simp: step_def)
    next
      case items
      then have "(''items'', v) \<in> set U" using that Pair by simp
      then show ?thesis using IH_items items Pair by (simp add: step_def)
    next
      case other
      then show ?thesis using Pair by (simp add: step_def)
    qed
  qed
  have "map upper_type G = G"
    unfolding G_def using up by (auto simp: map_idI)
  moreover have "map step G = G"
    unfolding G_def using again by auto
  ultimately have "clean_json_schema (JObj G) = JObj G"
    using keep unfold [of G] by simp
  moreover have "clean_json_schema (JObj kvs) = JObj G"
    using unfold [of kvs] by (simp add: G_def U_def)
  ultimately show ?case by simp
qed simp_all

text \<open>
  C9. Both schema cleaners are idempotent on every schema dictionary: cleaning a cleaned
  schema changes nothing, for the OpenAI-side \<^verbatim>\<open>_clean_json_schema\<close> and for the
  Claude-side \<^verbatim>\<open>_clean_schema\<close>.
\<close>

theorem C9_cleaners_idempotent:
  "clean_json_schema (clean_json_schema (JObj s)) = clean_json_schema (JObj s)
   \<and> clean_schema (clean_schema (JObj s)) = clean_schema (JObj s)"
  by (simp only: clean_json_schema_idem clean_schema_def clean_idem)

section \<open>Properties of the request and response mappers\<close>

text \<open>
  C6, at the failing input: a request that supplies \<^verbatim>\<open>temperature = 0\<close> and nothing
  else is sent upstream with temperature 1.0, not 0, because
  \<^verbatim>\<open>request.temperature or 1.0\<close> takes a supplied zero for an absent value.
\<close>

theorem C6_zero_temperature_replaced:
  "temperature zero_temperature_request = Some 0
   \<and> map_of (gen_config zero_temperature_request) ''temperature'' = Some (JReal 1)
   \<and> map_of (gen_config zero_temperature_request) ''temperature'' \<noteq> Some (JReal 0)"
  by (simp add: zero_temperature_request_def gen_config_def or_float_def or_int_def)

text \<open>
  What the code builds for every request: \<^verbatim>\<open>maxOutputTokens\<close>, \<^verbatim>\<open>temperature\<close> and
  \<^verbatim>\<open>topP\<close> are the request's value when that is present and not zero, and 64000, 1.0
  and 1.0 otherwise; \<^verbatim>\<open>stopSequences\<close> is present exactly when \<^verbatim>\<open>stop\<close> is a
  non-empty string (as a one-item list) or a non-empty list; \<^verbatim>\<open>responseMimeType\<close> is
  \<^verbatim>\<open>application/json\<close> exactly when the response format's type is \<^verbatim>\<open>json_object\<close>,
  and absent otherwise. So the defaults of the specification are met at every request
  that supplies no zero.
\<close>

lemma gen_config_lookup:
  "map_of (gen_config r) ''maxOutputTokens'' =
     Some (JInt (case max_tokens r of None \<Rightarrow> 64000 | Some n \<Rightarrow> if n = 0 then 64000 else n))
   \<and> map_of (gen_config r) ''temperature'' =
     Some (JReal (case temperature r of None \<Rightarrow> 1 | Some t \<Rightarrow> if t = 0 then 1 else t))
   \<and> map_of (gen_config r) ''topP'' =
     Some (JReal (case top_p r of None \<Rightarrow> 1 | Some p \<Rightarrow> if p = 0 then 1 else p))
   \<and> map_of (gen_config r) ''stopSequences'' =
     (case stop r of
        None \<Rightarrow> None
      | Some (StopStr s) \<Rightarrow> if s = [] then None else Some (JArr [JStr s])
      | Some (StopList ss) \<Rightarrow> if ss = [] then None else Some (JArr (map JStr ss)))
   \<and> map_of (gen_config r) ''responseMimeType'' =
     (if response_format r = Some ''json_object'' then Some (JStr ''application/json'') else None)"
  by (simp add: gen_config_def or_float_def or_int_def split: option.splits stop_value.splits)

lemma gen_config_no_zero:
  assumes "max_tokens r \<noteq> Some 0" "temperature r \<noteq> Some 0" "top_p r \<noteq> Some 0"
  shows "map_of (gen_config r) ''maxOutputTokens'' =
       Some (JInt (case max_tokens r of None \<Rightarrow> 64000 | Some n \<Rightarrow> n))
     \<and> map_of (gen_config r) ''temperature'' =
       Some (JReal (case temperature r of None \<Rightarrow> 1 | Some t \<Rightarrow> t))
     \<and> map_of (gen_config r) ''topP'' =
       Some (JReal (case top_p r of None \<Rightarrow> 1 | Some p \<Rightarrow> p))"
  using assms
  by (simp add: gen_config_def or_float_def or_int_def split: option.splits)

text \<open>
  C5, at the failing input: for an upstream body with one \<^verbatim>\<open>functionCall\<close> part and
  \<^verbatim>\<open>finishReason = STOP\<close>, the tool call is returned but the finish reason is
  \<^verbatim>\<open>stop\<close>, not \<^verbatim>\<open>tool_calls\<close>.
\<close>

theorem C5_tool_call_finish_reason_stop:
  "transform_gemini_to_openai tool_call_response =
     Inr \<lparr>content = None,
          tool_calls = Some [(''get_weather'', JObj [(''city'', JStr ''Paris'')])],
          finish_reason = ''stop'', usage = (12, 7, 19)\<rparr>"
  by (simp add: transform_gemini_to_openai_def tool_call_response_def dict_get_default_def
      dict_get_def first_candidate_def iter_json_def classify_part_def usage_of_def
      pyd_int_default_def pyd_int_def)

section \<open>Facts about selection, refresh and metadata\<close>


lemma store_fields [simp]:
  "current_index (store t st) = current_index st"
  "last_used (store t st) = last_used st"
  "metadata_fetches (store t st) = metadata_fetches st"
  by (simp_all add: store_def)

lemma store_ids:
  "map account_id (tokens (store t st)) = map account_id (tokens st)"
  by (simp add: store_def comp_def cong: map_cong)

lemma store_mem:
  assumes "u \<in> set (tokens st)" "account_id u = account_id t"
  shows "t \<in> set (tokens (store t st))"
  using assms by (force simp: store_def)

lemma round_robin_props:
  assumes "round_robin xs st = (Inr t, st')"
  shows "t \<in> set xs" "tokens st' = tokens st" "last_used st' = last_used st"
    "metadata_fetches st' = metadata_fetches st"
  using assms by (auto simp: round_robin_def split: if_splits)

lemma set_sort_by_quota [simp]: "set (sort_by_quota xs) = set xs"
  by (simp add: sort_by_quota_def)

lemma length_sort_by_quota [simp]: "length (sort_by_quota xs) = length xs"
  by (simp add: sort_by_quota_def)

lemma sort_by_quota_head_mem: "xs \<noteq> [] \<Longrightarrow> sort_by_quota xs ! 0 \<in> set xs"
  by (metis length_greater_0_conv length_sort_by_quota nth_mem set_sort_by_quota)

lemma select_image_gen_props:
  assumes "select_image_gen force st = (Inr t, st')"
  shows "t \<in> set (tokens st) \<and> tokens st' = tokens st \<and> last_used st' = last_used st
      \<and> metadata_fetches st' = metadata_fetches st"
proof -
  let ?pro = "filter is_pro (tokens st)"
  let ?pq = "filter has_quota ?pro"
  have rr: "round_robin xs st = (Inr t, st') \<Longrightarrow> set xs \<subseteq> set (tokens st) \<Longrightarrow> ?thesis" for xs
    using round_robin_props [of xs st t st'] by auto
  show ?thesis
  proof (cases "tokens st = []")
    case True
    then show ?thesis using assms by (simp add: select_image_gen_def)
  next
    case ne: False
    show ?thesis
    proof (cases force)
      case True
      then have "round_robin (tokens st) st = (Inr t, st')"
        using assms ne by (simp add: select_image_gen_def)
      then show ?thesis using rr by simp
    next
      case nf: False
      show ?thesis
      proof (cases "?pro = []")
        case True
        then have "round_robin (tokens st) st = (Inr t, st')"
          using assms ne nf by (simp add: select_image_gen_def)
        then show ?thesis using rr by simp
      next
        case pro: False
        show ?thesis
        proof (cases "?pq = []")
          case True
          then have "round_robin ?pro st = (Inr t, st')"
            using assms ne nf pro by (simp add: select_image_gen_def)
          then show ?thesis using rr by simp
        next
          case False
          then have "t = sort_by_quota ?pq ! 0" "st' = st"
            using assms ne nf pro by (auto simp: select_image_gen_def)
          moreover have "sort_by_quota ?pq ! 0 \<in> set ?pq"
            using False sort_by_quota_head_mem by blast
          ultimately show ?thesis by simp
        qed
      qed
    qed
  qed
qed


lemma tie_band_take_subset: "set (filter P (take n xs)) \<subseteq> set xs"
  using set_take_subset [of n xs] by auto

lemma select_normal_props:
  assumes "select_normal now st = (Inr t, st')"
  shows "t \<in> set (tokens st) \<and> tokens st' = tokens st
      \<and> last_used st' = Some (account_id t, now)
      \<and> metadata_fetches st' = metadata_fetches st"
proof -
  let ?S = "filter has_quota (tokens st)"
  let ?sorted = "sort_by_quota ?S"
  let ?similar = "filter (\<lambda>t. quota_or_0 t \<ge> fmul (quota_or_0 (?sorted ! 0)) (round_double 0.9)) (take 3 ?sorted)"
  define pick where "pick =
     (if ?S \<noteq> [] then
        (if length ?sorted \<ge> 3 then
           (if length ?similar > 1 then round_robin ?similar st else (Inr (?sorted ! 0), st))
         else (Inr (?sorted ! 0), st))
      else round_robin (tokens st) st)"
  have sel: "select_normal now st =
      (case fst pick of
         Inl e \<Rightarrow> (Inl e, snd pick)
       | Inr t \<Rightarrow> (Inr t, (snd pick)\<lparr>last_used := Some (account_id t, now)\<rparr>))"
    unfolding select_normal_def pick_def Let_def by (simp add: case_prod_unfold)
  obtain s1 where pick: "pick = (Inr t, s1)" and st': "st' = s1\<lparr>last_used := Some (account_id t, now)\<rparr>"
    using assms unfolding sel by (cases pick; cases "fst pick") auto
  have "t \<in> set (tokens st) \<and> tokens s1 = tokens st \<and> metadata_fetches s1 = metadata_fetches st"
  proof -
    have rr: "round_robin xs st = (Inr t, s1) \<Longrightarrow> set xs \<subseteq> set (tokens st) \<Longrightarrow> ?thesis" for xs
      using round_robin_props [of xs st t s1] by auto
    have best: "?S \<noteq> [] \<Longrightarrow> (Inr (?sorted ! 0), st) = (Inr t, s1) \<Longrightarrow> ?thesis"
      using sort_by_quota_head_mem [of ?S] by auto
    have sub: "set ?similar \<subseteq> set (tokens st)"
    proof -
      have "set ?similar \<subseteq> set ?sorted" by (rule tie_band_take_subset)
      then show ?thesis by auto
    qed
    show ?thesis
    proof (cases "?S = []")
      case True
      then show ?thesis using pick rr [of "tokens st"] by (simp add: pick_def)
    next
      case ne: False
      show ?thesis
      proof (cases "length ?sorted \<ge> 3")
        case False
        then show ?thesis using pick ne best by (auto simp: pick_def)
      next
        case three: True
        show ?thesis
        proof (cases "length ?similar > 1")
          case True
          then have "round_robin ?similar st = (Inr t, s1)"
            using pick ne three by (simp add: pick_def)
          then show ?thesis using rr sub by blast
        next
          case False
          then show ?thesis using pick ne three best by (auto simp: pick_def)
        qed
      qed
    qed
  qed
  then show ?thesis using st' by simp
qed

lemma find_account:
  assumes "find (\<lambda>t. account_id t = a) xs = Some t"
  shows "t \<in> set xs \<and> account_id t = a"
  using assms by (auto simp: find_Some_iff)

lemma sticky_token_props:
  assumes "sticky_token now qg force st = Some t"
  shows "t \<in> set (tokens st) \<and> (\<exists>lt. last_used st = Some (account_id t, lt) \<and> fsub now lt < 60)
      \<and> \<not> force \<and> qg \<noteq> ''image_gen''"
proof -
  from assms have nf: "\<not> force" "qg \<noteq> ''image_gen''"
    by (auto simp: sticky_token_def split: if_splits)
  then obtain lid lt where lu: "last_used st = Some (lid, lt)"
    using assms by (cases "last_used st") (auto simp: sticky_token_def)
  then have w: "fsub now lt < 60" and f: "find (\<lambda>t. account_id t = lid) (tokens st) = Some t"
    using assms nf by (auto simp: sticky_token_def split: if_splits)
  then show ?thesis using find_account [OF f] lu nf by simp
qed

lemma select_token_props:
  assumes "select_token c qg force st = (Inr t, st')"
  shows "t \<in> set (tokens st) \<and> tokens st' = tokens st
      \<and> metadata_fetches st' = metadata_fetches st"
proof (cases "tokens st = []")
  case True
  then show ?thesis using assms by (simp add: select_token_def)
next
  case ne: False
  show ?thesis
  proof (cases "sticky_token (at_sticky c) qg force st")
    case (Some u)
    then have "u = t" "st' = st" using assms ne by (simp_all add: select_token_def)
    then show ?thesis using sticky_token_props [OF Some] by simp
  next
    case None
    show ?thesis
    proof (cases "qg = ''image_gen''")
      case True
      then have "select_image_gen force st = (Inr t, st')"
        using assms ne None by (simp add: select_token_def)
      then show ?thesis using select_image_gen_props by blast
    next
      case False
      then have "select_normal (at_select c) st = (Inr t, st')"
        using assms ne None by (simp add: select_token_def)
      then show ?thesis using select_normal_props by blast
    qed
  qed
qed

lemma select_token_last_used:
  assumes "select_token c qg False st = (Inr t, st')" "qg \<noteq> ''image_gen''"
  shows "\<exists>lt. last_used st' = Some (account_id t, lt)
      \<and> (sticky_token (at_sticky c) qg False st = None \<longrightarrow> lt = at_select c)
      \<and> (sticky_token (at_sticky c) qg False st \<noteq> None \<longrightarrow> last_used st = Some (account_id t, lt))"
proof (cases "tokens st = []")
  case True
  then show ?thesis using assms by (simp add: select_token_def)
next
  case ne: False
  show ?thesis
  proof (cases "sticky_token (at_sticky c) qg False st")
    case (Some u)
    then have "u = t" "st' = st" using assms ne by (simp_all add: select_token_def)
    then show ?thesis using sticky_token_props [OF Some] Some by auto
  next
    case None
    then have "select_normal (at_select c) st = (Inr t, st')"
      using assms ne by (simp add: select_token_def)
    then show ?thesis using select_normal_props None by auto
  qed
qed


lemma refresh_token_cases:
  assumes "TokenManager_refresh_token env now tok st = (res, st')"
  obtains (early) "py_int now < expiry_timestamp tok - 300" "res = Inr tok" "st' = st"
    | (failed) e where "res = Inl e" "st' = st"
    | (stored) new tok' where
        "\<not> py_int now < expiry_timestamp tok - 300"
        "refresh_access_token (token_endpoint env (refresh_token tok)) (refresh_token tok) = Inr new"
        "tok' = tok\<lparr>access_token := tr_access_token new, expires_in := tr_expires_in new,
                     expiry_timestamp := py_int now + tr_expires_in new\<rparr>"
        "st' = store tok' st"
        "res = Inr tok' \<or> (\<exists>e. res = Inl e)"
proof (cases "py_int now < expiry_timestamp tok - 300")
  case True
  then show ?thesis using assms early by (simp add: TokenManager_refresh_token_def)
next
  case late: False
  show ?thesis
  proof (cases "refresh_access_token (token_endpoint env (refresh_token tok)) (refresh_token tok)")
    case (Inl e)
    then show ?thesis using assms late failed by (auto simp: TokenManager_refresh_token_def)
  next
    case (Inr new)
    define tok' where "tok' = tok\<lparr>access_token := tr_access_token new,
        expires_in := tr_expires_in new,
        expiry_timestamp := py_int now + tr_expires_in new\<rparr>"
    have "st' = store tok' st \<and> (res = Inr tok' \<or> (\<exists>e. res = Inl e))"
      using assms late Inr unfolding TokenManager_refresh_token_def tok'_def Let_def
      by (cases "save_token_error env (tok\<lparr>access_token := tr_access_token new,
            expires_in := tr_expires_in new,
            expiry_timestamp := py_int now + tr_expires_in new\<rparr>)") auto
    then show ?thesis using stored [OF late Inr tok'_def] by blast
  qed
qed

lemma refresh_token_state:
  assumes "TokenManager_refresh_token env now tok st = (res, st')"
  shows "map account_id (tokens st') = map account_id (tokens st)
      \<and> last_used st' = last_used st \<and> current_index st' = current_index st
      \<and> metadata_fetches st' = metadata_fetches st"
  using assms by (cases rule: refresh_token_cases) (simp_all add: store_ids)

lemma refresh_token_result:
  assumes "TokenManager_refresh_token env now tok st = (Inr t, st')"
  shows "account_id t = account_id tok \<and> email t = email tok
      \<and> project_id t = project_id tok \<and> refresh_token t = refresh_token tok
      \<and> subscription_tier t = subscription_tier tok
      \<and> (tok \<in> set (tokens st) \<longrightarrow> t \<in> set (tokens st'))"
  using assms
proof (cases rule: refresh_token_cases)
  case (stored new tok')
  then have "t = tok'" by simp
  then show ?thesis using stored store_mem [of tok st tok'] by auto
qed simp_all


lemma fetch_metadata_shape:
  obtains p s where
    "TokenManager_fetch_metadata env tok st =
       (tok\<lparr>project_id := p, subscription_tier := s\<rparr>,
        (store (tok\<lparr>project_id := p, subscription_tier := s\<rparr>) st)
          \<lparr>metadata_fetches := metadata_fetches st @ [account_id tok]\<rparr>)"
proof (cases "fetch_account_info (load_code_assist env (access_token tok))")
  case (Inl e)
  then have "TokenManager_fetch_metadata env tok st =
       (tok\<lparr>project_id := Some fallback_project_id, subscription_tier := subscription_tier tok\<rparr>,
        (store (tok\<lparr>project_id := Some fallback_project_id, subscription_tier := subscription_tier tok\<rparr>) st)
          \<lparr>metadata_fetches := metadata_fetches st @ [account_id tok]\<rparr>)"
    by (simp add: TokenManager_fetch_metadata_def Let_def)
  then show ?thesis using that by blast
next
  case (Inr r)
  obtain pid tier where r: "r = (pid, tier)" by (cases r)
  show ?thesis
  proof (cases "save_metadata_error env (account_id tok)")
    case None
    then have "TokenManager_fetch_metadata env tok st =
       (tok\<lparr>project_id := pid, subscription_tier := tier\<rparr>,
        (store (tok\<lparr>project_id := pid, subscription_tier := tier\<rparr>) st)
          \<lparr>metadata_fetches := metadata_fetches st @ [account_id tok]\<rparr>)"
      using Inr r by (simp add: TokenManager_fetch_metadata_def Let_def)
    then show ?thesis using that by blast
  next
    case (Some e)
    have swap: "tok\<lparr>subscription_tier := tier, project_id := Some fallback_project_id\<rparr>
        = tok\<lparr>project_id := Some fallback_project_id, subscription_tier := tier\<rparr>"
      by (rule ProxyToken.equality) simp_all
    from Some have "TokenManager_fetch_metadata env tok st =
       (tok\<lparr>project_id := Some fallback_project_id, subscription_tier := tier\<rparr>,
        (store (tok\<lparr>project_id := Some fallback_project_id, subscription_tier := tier\<rparr>) st)
          \<lparr>metadata_fetches := metadata_fetches st @ [account_id tok]\<rparr>)"
      using Inr r by (simp add: TokenManager_fetch_metadata_def Let_def swap)
    then show ?thesis using that by blast
  qed
qed

lemma fetch_metadata_props:
  assumes "TokenManager_fetch_metadata env tok st = (t, st')"
  shows "account_id t = account_id tok \<and> email t = email tok
      \<and> access_token t = access_token tok \<and> refresh_token t = refresh_token tok
      \<and> expiry_timestamp t = expiry_timestamp tok
      \<and> map account_id (tokens st') = map account_id (tokens st)
      \<and> last_used st' = last_used st \<and> current_index st' = current_index st
      \<and> metadata_fetches st' = metadata_fetches st @ [account_id tok]
      \<and> (tok \<in> set (tokens st) \<longrightarrow> t \<in> set (tokens st'))"
proof -
  obtain p s where "TokenManager_fetch_metadata env tok st =
       (tok\<lparr>project_id := p, subscription_tier := s\<rparr>,
        (store (tok\<lparr>project_id := p, subscription_tier := s\<rparr>) st)
          \<lparr>metadata_fetches := metadata_fetches st @ [account_id tok]\<rparr>)"
    by (rule fetch_metadata_shape)
  then have t: "t = tok\<lparr>project_id := p, subscription_tier := s\<rparr>"
    and st': "st' = (store t st)\<lparr>metadata_fetches := metadata_fetches st @ [account_id tok]\<rparr>"
    using assms by simp_all
  have "tok \<in> set (tokens st) \<Longrightarrow> t \<in> set (tokens (store t st))"
    using store_mem [of tok st t] t by simp
  then show ?thesis using t st' by (simp add: store_ids)
qed

lemma get_token_selected_cases:
  assumes "get_token_selected env c qg force st = (Inr t, st')"
  obtains sel s1 sel2 s2 where
    "select_token c qg force st = (Inr sel, s1)"
    "(if py_int (at_check c) \<ge> expiry_timestamp sel - 300
      then TokenManager_refresh_token env (at_refresh c) sel s1 else (Inr sel, s1)) = (Inr sel2, s2)"
    "(if \<not> str_truthy (project_id sel2)
      then TokenManager_fetch_metadata env sel2 s2 else (sel2, s2)) = (t, st')"
proof -
  obtain r1 s1 where sel: "select_token c qg force st = (r1, s1)" by force
  show ?thesis
  proof (cases r1)
    case (Inl e)
    then show ?thesis using assms sel by (simp add: get_token_selected_def)
  next
    case (Inr sel0)
    obtain r2 s2 where step3: "(if py_int (at_check c) \<ge> expiry_timestamp sel0 - 300
      then TokenManager_refresh_token env (at_refresh c) sel0 s1 else (Inr sel0, s1)) = (r2, s2)" by force
    show ?thesis
    proof (cases r2)
      case (Inl e)
      then show ?thesis using assms sel Inr step3 by (simp add: get_token_selected_def)
    next
      case r2: (Inr sel2)
      have "(if \<not> str_truthy (project_id sel2)
        then TokenManager_fetch_metadata env sel2 s2 else (sel2, s2)) = (t, st')"
        using assms sel Inr step3 r2
        by (simp add: get_token_selected_def split: if_splits prod.splits)
      then show ?thesis using that sel Inr step3 r2 by blast
    qed
  qed
qed


lemma get_token_selected_of:
  assumes "get_token env c qg force st = (Inr (tok, pid, em), st')"
  obtains t where "get_token_selected env c qg force st = (Inr t, st')"
    "tok = access_token t" "pid = project_or_fallback t" "em = email t"
proof -
  obtain r s where rs: "get_token_selected env c qg force st = (r, s)" by force
  show ?thesis
  proof (cases r)
    case (Inl e)
    then show ?thesis using assms rs by (simp add: get_token_def)
  next
    case (Inr t)
    then show ?thesis using assms rs that by (auto simp: get_token_def)
  qed
qed

text \<open>What an acquisition that returns leaves behind.\<close>

lemma get_token_selected_post:
  assumes "get_token_selected env c qg force st = (Inr t, st')"
  shows "t \<in> set (tokens st')
      \<and> map account_id (tokens st') = map account_id (tokens st)"
  using assms
proof (cases rule: get_token_selected_cases)
  case (1 sel s1 sel2 s2)
  have a: "sel \<in> set (tokens s1)" "tokens s1 = tokens st"
    using select_token_props [OF 1(1)] by simp_all
  have b: "sel2 \<in> set (tokens s2) \<and> map account_id (tokens s2) = map account_id (tokens s1)"
  proof (cases "py_int (at_check c) \<ge> expiry_timestamp sel - 300")
    case True
    then have r: "TokenManager_refresh_token env (at_refresh c) sel s1 = (Inr sel2, s2)" using 1(2) by simp
    show ?thesis using refresh_token_result [OF r] refresh_token_state [OF r] a by simp
  next
    case False
    then show ?thesis using 1(2) a by auto
  qed
  have c: "t \<in> set (tokens st') \<and> map account_id (tokens st') = map account_id (tokens s2)"
  proof (cases "str_truthy (project_id sel2)")
    case False
    then have f: "TokenManager_fetch_metadata env sel2 s2 = (t, st')" using 1(3) by simp
    show ?thesis using fetch_metadata_props [OF f] b by simp
  next
    case True
    then show ?thesis using 1(3) b by auto
  qed
  show ?thesis using a b c by simp
qed

lemma get_token_selected_identity:
  assumes "get_token_selected env c qg force st = (Inr t, st')"
    and "select_token c qg force st = (Inr sel, s1)"
  shows "account_id t = account_id sel \<and> email t = email sel \<and> last_used st' = last_used s1"
  using assms(1)
proof (cases rule: get_token_selected_cases)
  case (1 sel' s1' sel2 s2)
  then have eq: "sel' = sel" "s1' = s1" using assms(2) by simp_all
  have b: "account_id sel2 = account_id sel \<and> email sel2 = email sel \<and> last_used s2 = last_used s1"
  proof (cases "py_int (at_check c) \<ge> expiry_timestamp sel - 300")
    case True
    then have r: "TokenManager_refresh_token env (at_refresh c) sel s1 = (Inr sel2, s2)" using 1(2) eq by simp
    show ?thesis using refresh_token_result [OF r] refresh_token_state [OF r] by simp
  next
    case False
    then show ?thesis using 1(2) eq by auto
  qed
  have c: "account_id t = account_id sel2 \<and> email t = email sel2 \<and> last_used st' = last_used s2"
  proof (cases "str_truthy (project_id sel2)")
    case False
    then have f: "TokenManager_fetch_metadata env sel2 s2 = (t, st')" using 1(3) by simp
    show ?thesis using fetch_metadata_props [OF f] by simp
  next
    case True
    then show ?thesis using 1(3) by auto
  qed
  show ?thesis using b c by simp
qed

lemma find_distinct:
  assumes "distinct (map account_id xs)" "t \<in> set xs"
  shows "find (\<lambda>u. account_id u = account_id t) xs = Some t"
  using assms
proof (induction xs)
  case Nil
  then show ?case by simp
next
  case (Cons x xs)
  show ?case
  proof (cases "account_id x = account_id t")
    case True
    then have "x = t" using Cons.prems by (auto simp: image_iff)
    then show ?thesis by simp
  next
    case False
    then show ?thesis using Cons by auto
  qed
qed

lemma sticky_hit:
  assumes "pool_ok st" "t \<in> set (tokens st)" "last_used st = Some (account_id t, lt)"
    "fsub (at_sticky c) lt < 60" "qg \<noteq> ''image_gen''"
  shows "select_token c qg False st = (Inr t, st)"
proof -
  have "sticky_token (at_sticky c) qg False st = Some t"
    using assms find_distinct [of "tokens st" t] by (simp add: sticky_token_def pool_ok_def)
  moreover have "tokens st \<noteq> []" using assms(2) by auto
  ultimately show ?thesis by (simp add: select_token_def)
qed

section \<open>Sticky sessions and token expiry\<close>

text \<open>
  C1, as stated, fails. In the pool of two unscored accounts a first acquisition at time
  0 has picked account a and recorded \<open>(a, 0)\<close>. An acquisition at time 50 hits the
  sticky window, returns a and leaves the state as it was: a sticky hit does not renew
  the recorded time. An acquisition at time 70, twenty seconds later and on the same
  pool, is outside the window of the recorded time and returns account b. (The clock
  stands still during each call.)
\<close>

theorem C1_sticky_not_renewed:
  "fst (get_token env_up (frozen 50) ''gemini'' False pool_ab_after)
     = Inr (''access-a'', ''project-a'', ''a@example.com'')
   \<and> snd (get_token env_up (frozen 50) ''gemini'' False pool_ab_after) = pool_ab_after
   \<and> fst (get_token env_up (frozen 70) ''gemini'' False pool_ab_after)
     = Inr (''access-b'', ''project-b'', ''b@example.com'')"
  by code_simp

text \<open>
  C1, amended. For two successive acquisitions with \<^verbatim>\<open>force_rotate=false\<close> and quota
  groups other than \<^verbatim>\<open>image_gen\<close> (the same group or two different ones) that both
  return, on a pool with unique account ids and nothing else touching it in between: if
  the second reads the clock, for its sticky test, less than 60 seconds (in the float
  difference) after the time recorded in the sticky pair, both return the same identity.
  That time is the time of the last non-sticky selection: the first acquisition sets it
  to its own reading of the clock when it selects afresh, and leaves the pair as it was
  when it is itself a sticky hit.
\<close>

theorem C1_sticky_window:
  assumes "pool_ok st"
    and "quota_group1 \<noteq> ''image_gen''" and "quota_group2 \<noteq> ''image_gen''"
    and "get_token env1 clock1 quota_group1 False st = (Inr (tok1, pid1, em1), st1)"
    and "get_token env2 clock2 quota_group2 False st1 = (Inr (tok2, pid2, em2), st2)"
    and "last_used st1 = Some (last_id, last_time)"
    and "fsub (at_sticky clock2) last_time < 60"
  shows "em2 = em1
     \<and> (sticky_token (at_sticky clock1) quota_group1 False st = None
          \<longrightarrow> last_time = at_select clock1)
     \<and> (sticky_token (at_sticky clock1) quota_group1 False st \<noteq> None
          \<longrightarrow> last_used st = Some (last_id, last_time))"
proof -
  obtain a where a: "get_token_selected env1 clock1 quota_group1 False st = (Inr a, st1)"
    and em1: "em1 = email a"
    using assms(4) by (rule get_token_selected_of)
  obtain b where b: "get_token_selected env2 clock2 quota_group2 False st1 = (Inr b, st2)"
    and em2: "em2 = email b"
    using assms(5) by (rule get_token_selected_of)
  obtain sel s1 where sel: "select_token clock1 quota_group1 False st = (Inr sel, s1)"
    using a by (rule get_token_selected_cases)
  have id: "account_id a = account_id sel" and lu: "last_used st1 = last_used s1"
    using get_token_selected_identity [OF a sel] by simp_all
  from select_token_last_used [OF sel assms(2)]
  obtain lt where all: "last_used s1 = Some (account_id sel, lt)
      \<and> (sticky_token (at_sticky clock1) quota_group1 False st = None \<longrightarrow> lt = at_select clock1)
      \<and> (sticky_token (at_sticky clock1) quota_group1 False st \<noteq> None
            \<longrightarrow> last_used st = Some (account_id sel, lt))" ..
  from all have lt: "last_used s1 = Some (account_id sel, lt)" by (rule conjunct1)
  from all have fresh: "sticky_token (at_sticky clock1) quota_group1 False st = None
      \<longrightarrow> lt = at_select clock1"
    by (elim conjE)
  from all have kept: "sticky_token (at_sticky clock1) quota_group1 False st \<noteq> None
      \<longrightarrow> last_used st = Some (account_id sel, lt)"
    by (elim conjE)
  have "Some (last_id, last_time) = Some (account_id sel, lt)"
    using assms(6) lu lt by simp
  then have lid: "last_id = account_id sel" and ltime: "last_time = lt" by simp_all
  have mem: "a \<in> set (tokens st1)" and ids: "map account_id (tokens st1) = map account_id (tokens st)"
    using get_token_selected_post [OF a] by simp_all
  have ok1: "pool_ok st1" using assms(1) ids by (simp add: pool_ok_def)
  have lu1: "last_used st1 = Some (account_id a, last_time)"
    using assms(6) lid id by simp
  have hit: "select_token clock2 quota_group2 False st1 = (Inr a, st1)"
    using ok1 mem lu1 assms(7) assms(3) by (rule sticky_hit)
  have same: "email b = email a"
    using get_token_selected_identity [OF b hit] by simp
  have c1: "em2 = em1" using same em1 em2 by simp
  have c2: "sticky_token (at_sticky clock1) quota_group1 False st = None
      \<longrightarrow> last_time = at_select clock1"
    using fresh ltime by simp
  have c3: "sticky_token (at_sticky clock1) quota_group1 False st \<noteq> None
      \<longrightarrow> last_used st = Some (last_id, last_time)"
    using kept lid ltime by simp
  show ?thesis using c1 c2 c3 by (intro conjI)
qed

text \<open>
  The theorem at the pool of two: an acquisition for \<^verbatim>\<open>gemini\<close> at time 0, then one
  for \<^verbatim>\<open>claude\<close> at time 50.
\<close>

theorem C1_sticky_window_witness:
  "pool_ok pool_ab
   \<and> get_token env_up (frozen 0) ''gemini'' False pool_ab
       = (Inr (''access-a'', ''project-a'', ''a@example.com''), pool_ab_after)
   \<and> get_token env_up (frozen 50) ''claude'' False pool_ab_after
       = (Inr (''access-a'', ''project-a'', ''a@example.com''), pool_ab_after)
   \<and> last_used pool_ab_after = Some (''a'', 0)
   \<and> fsub (at_sticky (frozen 50)) 0 < 60
   \<and> ''a@example.com'' = ''a@example.com''"
proof -
  have h1: "pool_ok pool_ab" by code_simp
  have h2: "''gemini'' \<noteq> ''image_gen''" by simp
  have h2': "''claude'' \<noteq> ''image_gen''" by simp
  have h3: "get_token env_up (frozen 0) ''gemini'' False pool_ab
       = (Inr (''access-a'', ''project-a'', ''a@example.com''), pool_ab_after)" by code_simp
  have h4: "get_token env_up (frozen 50) ''claude'' False pool_ab_after
       = (Inr (''access-a'', ''project-a'', ''a@example.com''), pool_ab_after)" by code_simp
  have h5: "last_used pool_ab_after = Some (''a'', 0)" by (simp add: pool_ab_after_def)
  have h6: "fsub (at_sticky (frozen 50)) 0 < 60" by code_simp
  from C1_sticky_window [OF h1 h2 h2' h3 h4 h5 h6]
  have "''a@example.com'' = ''a@example.com''" by (rule conjunct1)
  then show ?thesis using h1 h3 h4 h5 h6 by (intro conjI)
qed



section \<open>Weighted selection\<close>

lemma sort_by_quota_head_max:
  assumes "u \<in> set xs"
  shows "quota_or_0 u \<le> quota_or_0 (sort_by_quota xs ! 0)"
proof -
  let ?ys = "sort_by_quota xs"
  have srt: "sorted (map (\<lambda>t. - quota_or_0 t) ?ys)"
    by (simp add: sort_by_quota_def)
  from assms have "u \<in> set ?ys" by simp
  then obtain i where i: "i < length ?ys" "?ys ! i = u"
    unfolding in_set_conv_nth by blast
  then have "map (\<lambda>t. - quota_or_0 t) ?ys ! 0 \<le> map (\<lambda>t. - quota_or_0 t) ?ys ! i"
    using srt by (intro sorted_nth_mono) simp_all
  moreover have "0 < length ?ys" using i by linarith
  ultimately show ?thesis using i by (simp add: nth_map)
qed

lemma tie_band_code:
  "filter (\<lambda>t. quota_or_0 t \<ge> fmul (quota_or_0 (ys ! 0)) (round_double 0.9)) (take 3 ys)
     = tie_band ys"
  by (simp add: tie_band_def fmul_def mult.commute)

lemma select_normal_band:
  assumes "S = filter has_quota (tokens st)" "S \<noteq> []"
    and "3 \<le> length S \<and> 1 < length (tie_band (sort_by_quota S))"
  shows "select_normal now st =
     (Inr (tie_band (sort_by_quota S) ! (current_index st mod length (tie_band (sort_by_quota S)))),
      st\<lparr>current_index := current_index st + 1,
         last_used := Some (account_id (tie_band (sort_by_quota S)
             ! (current_index st mod length (tie_band (sort_by_quota S)))), now)\<rparr>)"
proof -
  have ne: "tie_band (sort_by_quota S) \<noteq> []" using assms(3) by auto
  show ?thesis
    unfolding select_normal_def Let_def tie_band_code
    using assms ne by (simp add: round_robin_def)
qed

lemma select_normal_best:
  assumes "S = filter has_quota (tokens st)" "S \<noteq> []"
    and "\<not> (3 \<le> length S \<and> 1 < length (tie_band (sort_by_quota S)))"
  shows "select_normal now st =
     (Inr (sort_by_quota S ! 0),
      st\<lparr>last_used := Some (account_id (sort_by_quota S ! 0), now)\<rparr>)"
  unfolding select_normal_def Let_def tie_band_code
  using assms by auto

text \<open>
  C2, as stated, fails. With two scored accounts of equal score and the counter at one,
  the rule of the claim round-robins over both and picks account b; the code applies the
  tie band only to three or more scored accounts and picks the first, account a.
\<close>

theorem C2_two_scored_counterexample:
  "fst (select_token (frozen 0) ''gemini'' False pool_scored)
     = Inr (account_a\<lparr>average_quota := Some 0.75\<rparr>)
   \<and> spec_weighted_pick (filter has_quota (tokens pool_scored)) (current_index pool_scored)
       = account_b\<lparr>average_quota := Some 0.75\<rparr>
   \<and> email (account_a\<lparr>average_quota := Some 0.75\<rparr>) = ''a@example.com''
   \<and> email (account_b\<lparr>average_quota := Some 0.75\<rparr>) = ''b@example.com''"
  by code_simp

text \<open>
  C2, amended. For every non-sticky acquisition with a quota group other than
  \<^verbatim>\<open>image_gen\<close>, when the set \<open>S\<close> of entries with a score above 0.05 is not empty,
  an entry of \<open>S\<close> is selected and recorded in the sticky pair; the first entry of \<open>S\<close>
  sorted by score descending has the highest score of \<open>S\<close>; when \<open>S\<close> has at least
  three entries and more than one of the first three has a score of at least the float
  product of 0.9 and the top score, the selection is the round robin over exactly those
  entries (the counter advances by one) and the selected score is within the band; in
  every other case, in particular whenever \<open>S\<close> has fewer than three entries, the first
  entry is selected and the counter stays.
\<close>

theorem C2_weighted_pick:
  assumes "sticky_token (at_sticky c) quota_group force_rotate st = None"
    and "quota_group \<noteq> ''image_gen''"
    and "S = filter has_quota (tokens st)" and "S \<noteq> []"
  shows "\<exists>t st'. select_token c quota_group force_rotate st = (Inr t, st')
      \<and> t \<in> set S
      \<and> last_used st' = Some (account_id t, at_select c)
      \<and> (\<forall>u\<in>set S. quota_or_0 u \<le> quota_or_0 (sort_by_quota S ! 0))
      \<and> (if 3 \<le> length S \<and> 1 < length (tie_band (sort_by_quota S))
         then t = tie_band (sort_by_quota S)
                    ! (current_index st mod length (tie_band (sort_by_quota S)))
              \<and> current_index st' = current_index st + 1
              \<and> fmul (round_double 0.9) (quota_or_0 (sort_by_quota S ! 0)) \<le> quota_or_0 t
         else t = sort_by_quota S ! 0 \<and> current_index st' = current_index st)"
proof -
  let ?T = "tie_band (sort_by_quota S)"
  have ne: "tokens st \<noteq> []" using assms(3,4) by auto
  have sel: "select_token c quota_group force_rotate st = select_normal (at_select c) st"
    using ne assms(1,2) by (simp add: select_token_def)
  have top: "\<forall>u\<in>set S. quota_or_0 u \<le> quota_or_0 (sort_by_quota S ! 0)"
    using sort_by_quota_head_max by blast
  show ?thesis
  proof (cases "3 \<le> length S \<and> 1 < length ?T")
    case True
    let ?t = "?T ! (current_index st mod length ?T)"
    have "0 < length ?T" using True by linarith
    then have pos: "current_index st mod length ?T < length ?T" by (rule mod_less_divisor)
    then have mem: "?t \<in> set ?T" by (rule nth_mem)
    then have band: "fmul (round_double 0.9) (quota_or_0 (sort_by_quota S ! 0)) \<le> quota_or_0 ?t"
      by (simp add: tie_band_def)
    have "set ?T \<subseteq> set (sort_by_quota S)"
      unfolding tie_band_def by (rule tie_band_take_subset)
    then have inS: "?t \<in> set S" using mem by auto
    show ?thesis
      unfolding sel select_normal_band [OF assms(3,4) True]
      using True inS band top by simp
  next
    case False
    have inS: "sort_by_quota S ! 0 \<in> set S"
      using assms(4) by (rule sort_by_quota_head_mem)
    show ?thesis
      unfolding sel select_normal_best [OF assms(3,4) False]
      using False inS top by simp
  qed
qed

text \<open>
  The theorem at three accounts scored 0.1, 0.09 and 0.06 with the counter at one: the
  band holds account a alone, which is selected, and the counter stays. And the selection
  at three accounts scored 0.5, 0.875 and 0.8125 with the counter at one: the band holds
  a and b, the round robin selects b and the counter advances.
\<close>

theorem C2_weighted_pick_witness:
  "sticky_token (at_sticky (frozen 0)) ''gemini'' False pool_boundary = None
   \<and> filter has_quota (tokens pool_boundary) = tokens pool_boundary
   \<and> tie_band (sort_by_quota (tokens pool_boundary))
       = [account_a\<lparr>average_quota := Some (round_double 0.1)\<rparr>]
   \<and> select_token (frozen 0) ''gemini'' False pool_boundary
       = (Inr (account_a\<lparr>average_quota := Some (round_double 0.1)\<rparr>),
          pool_boundary\<lparr>last_used := Some (''a'', 0)\<rparr>)
   \<and> (\<exists>t st'. select_token (frozen 0) ''gemini'' False pool_boundary = (Inr t, st')
         \<and> t \<in> set (filter has_quota (tokens pool_boundary))
         \<and> last_used st' = Some (account_id t, at_select (frozen 0)))
   \<and> select_token (frozen 0) ''gemini'' False pool_three
       = (Inr (account_b\<lparr>average_quota := Some 0.8125\<rparr>),
          pool_three\<lparr>current_index := 2, last_used := Some (''b'', 0)\<rparr>)"
proof -
  let ?S = "filter has_quota (tokens pool_boundary)"
  have h1: "sticky_token (at_sticky (frozen 0)) ''gemini'' False pool_boundary = None"
    by code_simp
  have h2: "''gemini'' \<noteq> ''image_gen''" by simp
  have s: "?S = tokens pool_boundary" by code_simp
  have h4: "?S \<noteq> []" unfolding s by (simp add: pool_boundary_def)
  have band: "tie_band (sort_by_quota (tokens pool_boundary))
       = [account_a\<lparr>average_quota := Some (round_double 0.1)\<rparr>]" by code_simp
  have ev: "select_token (frozen 0) ''gemini'' False pool_boundary
       = (Inr (account_a\<lparr>average_quota := Some (round_double 0.1)\<rparr>),
          pool_boundary\<lparr>last_used := Some (''a'', 0)\<rparr>)" by code_simp
  have ev3: "select_token (frozen 0) ''gemini'' False pool_three
       = (Inr (account_b\<lparr>average_quota := Some 0.8125\<rparr>),
          pool_three\<lparr>current_index := 2, last_used := Some (''b'', 0)\<rparr>)" by code_simp
  from C2_weighted_pick [OF h1 h2 refl h4]
  obtain t st' where all: "select_token (frozen 0) ''gemini'' False pool_boundary = (Inr t, st')
      \<and> t \<in> set ?S
      \<and> last_used st' = Some (account_id t, at_select (frozen 0))
      \<and> (\<forall>u\<in>set ?S. quota_or_0 u \<le> quota_or_0 (sort_by_quota ?S ! 0))
      \<and> (if 3 \<le> length ?S \<and> 1 < length (tie_band (sort_by_quota ?S))
         then t = tie_band (sort_by_quota ?S)
                    ! (current_index pool_boundary mod length (tie_band (sort_by_quota ?S)))
              \<and> current_index st' = current_index pool_boundary + 1
              \<and> fmul (round_double 0.9) (quota_or_0 (sort_by_quota ?S ! 0)) \<le> quota_or_0 t
         else t = sort_by_quota ?S ! 0 \<and> current_index st' = current_index pool_boundary)"
    by (elim exE)
  have a: "select_token (frozen 0) ''gemini'' False pool_boundary = (Inr t, st')"
    using all by (elim conjE)
  have b: "t \<in> set ?S" using all by (elim conjE)
  have c: "last_used st' = Some (account_id t, at_select (frozen 0))" using all by (elim conjE)
  have ex: "\<exists>t st'. select_token (frozen 0) ''gemini'' False pool_boundary = (Inr t, st')
         \<and> t \<in> set ?S
         \<and> last_used st' = Some (account_id t, at_select (frozen 0))"
    using a b c by (intro exI conjI)
  show ?thesis using h1 s band ev ex ev3 by (intro conjI)
qed
section \<open>The fallback project\<close>


lemma fetch_account_info_fails:
  assumes "case post of TransportError m \<Rightarrow> True | Response r \<Rightarrow> status_code r \<noteq> 200"
  shows "fetch_account_info post = Inr (Some fallback_project_id, None)"
  using assms
  by (cases post) (simp_all add: fetch_account_info_def fetch_account_info_try_def)

lemma fetch_metadata_fails:
  assumes "case load_code_assist env (access_token tok) of
             TransportError m \<Rightarrow> True | Response r \<Rightarrow> status_code r \<noteq> 200"
  shows "project_id (fst (TokenManager_fetch_metadata env tok st)) = Some fallback_project_id"
  using fetch_account_info_fails [OF assms]
  by (cases "save_metadata_error env (account_id tok)")
     (simp_all add: TokenManager_fetch_metadata_def Let_def)























section \<open>Metadata fetch and refresh\<close>

text \<open>
  C7, as stated, fails. On a 500 answer and on a transport error
  \<^verbatim>\<open>fetch_account_info\<close> does not fail: it returns the fallback project and no tier.
\<close>

theorem C7_fallback_on_failure:
  "fetch_account_info (error_response 500) = Inr (Some ''bamboo-precept-lgxtn'', None)
   \<and> fetch_account_info (TransportError ''connection refused'')
       = Inr (Some ''bamboo-precept-lgxtn'', None)"
  by (simp add: fetch_account_info_def fetch_account_info_try_def error_response_def
      fallback_project_id_def)

text \<open>
  C7, amended. For every access token the metadata fetch never fails. On a transport
  error and on every answer with a status other than 200, \<^verbatim>\<open>fetch_account_info\<close>
  returns the fallback project id with no tier, and \<^verbatim>\<open>_fetch_metadata\<close> leaves the
  fallback project id in the entry; on every input \<^verbatim>\<open>fetch_account_info\<close> returns a
  value.
\<close>

theorem C7_metadata_fetch_falls_back:
  assumes "load_code_assist env (access_token token) = post"
    and "case post of TransportError m \<Rightarrow> True | Response r \<Rightarrow> status_code r \<noteq> 200"
  shows "fetch_account_info post = Inr (Some fallback_project_id, None)
     \<and> project_id (fst (TokenManager_fetch_metadata env token st)) = Some fallback_project_id
     \<and> (\<exists>r. fetch_account_info other = Inr r)"
proof -
  have a: "fetch_account_info post = Inr (Some fallback_project_id, None)"
    using assms(2) by (rule fetch_account_info_fails)
  have b: "project_id (fst (TokenManager_fetch_metadata env token st)) = Some fallback_project_id"
    using assms by (intro fetch_metadata_fails) simp
  have c: "\<exists>r. fetch_account_info other = Inr r"
    by (cases "fetch_account_info_try other"; cases "projr (fetch_account_info_try other)")
       (simp_all add: fetch_account_info_def)
  show ?thesis using a b c by (intro conjI)
qed

text \<open>The theorem at the new account while \<^verbatim>\<open>loadCodeAssist\<close> answers 500.\<close>

theorem C7_metadata_fetch_falls_back_witness:
  "load_code_assist env_down (access_token account_new) = error_response 500
   \<and> fetch_account_info (error_response 500) = Inr (Some fallback_project_id, None)
   \<and> project_id (fst (TokenManager_fetch_metadata env_down account_new pool_new))
       = Some fallback_project_id"
proof -
  have h1: "load_code_assist env_down (access_token account_new) = error_response 500"
    by (simp add: env_down_def)
  have h2: "case error_response 500 of
              TransportError m \<Rightarrow> True | Response r \<Rightarrow> status_code r \<noteq> 200"
    by (simp add: error_response_def)
  note c = C7_metadata_fetch_falls_back [OF h1 h2, where st = pool_new and other = "error_response 500"]
  have a: "fetch_account_info (error_response 500) = Inr (Some fallback_project_id, None)"
    using c by (elim conjE)
  have b: "project_id (fst (TokenManager_fetch_metadata env_down account_new pool_new))
       = Some fallback_project_id"
    using c by (elim conjE)
  show ?thesis using h1 a b by (intro conjI)
qed

lemma store_same_refresh_token:
  assumes "pool_ok st" "token \<in> set (tokens st)"
    "account_id tok' = account_id token" "refresh_token tok' = refresh_token token"
  shows "map refresh_token (tokens (store tok' st)) = map refresh_token (tokens st)"
proof -
  have "\<And>u. u \<in> set (tokens st) \<Longrightarrow> account_id u = account_id tok' \<Longrightarrow> u = token"
    using assms(1,2,3) unfolding pool_ok_def
    by (metis distinct_map inj_on_def)
  then have "\<And>u. u \<in> set (tokens st) \<Longrightarrow>
       refresh_token (if account_id u = account_id tok' then tok' else u) = refresh_token u"
    using assms(4) by auto
  then show ?thesis by (simp add: store_def comp_def cong: map_cong)
qed

lemma refresh_access_token_keeps:
  assumes "body_json r = Some (JObj json_data)"
    and "''refresh_token'' \<notin> fst ` set json_data"
    and "refresh_access_token (Response r) old = Inr new"
  shows "tr_refresh_token new = Some old"
proof -
  have absent: "map_of json_data ''refresh_token'' = None"
    using assms(2) by (simp add: map_of_eq_None_iff)
  have ok: "status_code r = 200"
    using assms(3) by (auto simp: refresh_access_token_def split: if_splits)
  have "make_TokenResponse (json_data @ [(''refresh_token'', JStr old)]) = Inr new"
    using assms ok by (simp add: refresh_access_token_def)
  then show ?thesis
    using absent
    by (auto simp: make_TokenResponse_def pyd_opt_str_def map_add_def
        split: sum.splits option.splits)
qed

text \<open>
  C8. When the answer of the token endpoint to a refresh has a JSON object as body with
  no \<^verbatim>\<open>refresh_token\<close> field, the prior refresh token is retained: every token record
  that \<^verbatim>\<open>refresh_access_token\<close> returns carries the old refresh token, and
  \<^verbatim>\<open>_refresh_token\<close> on an entry of the pool leaves the refresh tokens of the pool as
  they were; the entry it returns has the old refresh token and is in the pool. (On a
  status other than 200 no record is returned and the refresh fails.)
\<close>

theorem C8_refresh_token_retained:
  assumes "pool_ok st" and "token \<in> set (tokens st)"
    and "token_endpoint env (refresh_token token) = Response r"
    and "body_json r = Some (JObj json_data)"
    and "''refresh_token'' \<notin> fst ` set json_data"
    and "TokenManager_refresh_token env now token st = (res, st')"
  shows "(\<forall>new. refresh_access_token (Response r) (refresh_token token) = Inr new
            \<longrightarrow> tr_refresh_token new = Some (refresh_token token))
     \<and> map refresh_token (tokens st') = map refresh_token (tokens st)
     \<and> (\<forall>t. res = Inr t \<longrightarrow> refresh_token t = refresh_token token \<and> t \<in> set (tokens st'))"
proof -
  have a: "\<forall>new. refresh_access_token (Response r) (refresh_token token) = Inr new
            \<longrightarrow> tr_refresh_token new = Some (refresh_token token)"
  proof (intro allI impI)
    fix new
    assume "refresh_access_token (Response r) (refresh_token token) = Inr new"
    with assms(4,5) show "tr_refresh_token new = Some (refresh_token token)"
      by (rule refresh_access_token_keeps)
  qed
  have b: "map refresh_token (tokens st') = map refresh_token (tokens st)"
    using assms(6)
  proof (cases rule: refresh_token_cases)
    case (stored new tok')
    then show ?thesis using store_same_refresh_token [OF assms(1,2), of tok'] by simp
  qed simp_all
  have c: "\<forall>t. res = Inr t \<longrightarrow> refresh_token t = refresh_token token \<and> t \<in> set (tokens st')"
  proof (intro allI impI)
    fix t
    assume "res = Inr t"
    then have "TokenManager_refresh_token env now token st = (Inr t, st')"
      using assms(6) by simp
    from refresh_token_result [OF this]
    show "refresh_token t = refresh_token token \<and> t \<in> set (tokens st')"
      using assms(2) by simp
  qed
  show ?thesis using a b c by (intro conjI)
qed

text \<open>
  The theorem at the expired account, refreshed at time 2000 with an answer of status 200
  that carries an access token and a lifetime only.
\<close>

theorem C8_refresh_token_retained_witness:
  "refresh_access_token refresh_ok_response ''refresh-a''
     = Inr \<lparr>tr_access_token = ''access-new'', tr_expires_in = 3599, tr_token_type = ''Bearer'',
           tr_refresh_token = Some ''refresh-a'', tr_scope = None\<rparr>
   \<and> TokenManager_refresh_token env_up 2000 account_expired pool_expired
       = (Inr account_refreshed, pool_expired\<lparr>tokens := [account_refreshed]\<rparr>)
   \<and> map refresh_token (tokens (pool_expired\<lparr>tokens := [account_refreshed]\<rparr>)) = [''refresh-a'']
   \<and> map refresh_token (tokens pool_expired) = [''refresh-a'']
   \<and> refresh_token account_refreshed = ''refresh-a''"
proof -
  let ?r = "\<lparr>status_code = 200, body_text = ''{...}'',
             body_json = Some (JObj [(''access_token'', JStr ''access-new''),
                                     (''expires_in'', JInt 3599)])\<rparr>"
  let ?new = "\<lparr>tr_access_token = ''access-new'', tr_expires_in = 3599, tr_token_type = ''Bearer'',
           tr_refresh_token = Some ''refresh-a'', tr_scope = None\<rparr>"
  have rt: "refresh_token account_expired = ''refresh-a''"
    by (simp add: account_expired_def account_a_def)
  have h1: "pool_ok pool_expired" by code_simp
  have h2: "account_expired \<in> set (tokens pool_expired)" by (simp add: pool_expired_def)
  have h3: "token_endpoint env_up (refresh_token account_expired) = Response ?r"
    by (simp add: env_up_def refresh_ok_response_def)
  have h4: "body_json ?r = Some (JObj [(''access_token'', JStr ''access-new''),
                                     (''expires_in'', JInt 3599)])" by simp
  have h5: "''refresh_token'' \<notin> fst ` set [(''access_token'', JStr ''access-new''),
                                     (''expires_in'', JInt 3599)]" by simp
  have h6: "TokenManager_refresh_token env_up 2000 account_expired pool_expired
       = (Inr account_refreshed, pool_expired\<lparr>tokens := [account_refreshed]\<rparr>)" by code_simp
  have ev: "refresh_access_token (Response ?r) ''refresh-a'' = Inr ?new" by code_simp
  note c = C8_refresh_token_retained [OF h1 h2 h3 h4 h5 h6]
  have c1: "\<forall>new. refresh_access_token (Response ?r) (refresh_token account_expired) = Inr new
            \<longrightarrow> tr_refresh_token new = Some (refresh_token account_expired)"
    using c by (elim conjE)
  have c2: "map refresh_token (tokens (pool_expired\<lparr>tokens := [account_refreshed]\<rparr>))
      = map refresh_token (tokens pool_expired)" using c by (elim conjE)
  have c3: "\<forall>t. (Inr account_refreshed :: exn + ProxyToken) = Inr t
      \<longrightarrow> refresh_token t = refresh_token account_expired
          \<and> t \<in> set (tokens (pool_expired\<lparr>tokens := [account_refreshed]\<rparr>))"
    using c by (elim conjE)
  have w1: "refresh_access_token refresh_ok_response ''refresh-a'' = Inr ?new"
    using ev by (simp add: refresh_ok_response_def)
  have w3: "map refresh_token (tokens pool_expired) = [''refresh-a'']"
    using rt by (simp add: pool_expired_def)
  have w2: "map refresh_token (tokens (pool_expired\<lparr>tokens := [account_refreshed]\<rparr>)) = [''refresh-a'']"
    using c2 w3 by simp
  have w4: "refresh_token account_refreshed = ''refresh-a''"
    using c3 rt by simp
  show ?thesis using w1 h6 w2 w3 w4 by (intro conjI)
qed

section \<open>Properties of the retry loop\<close>

text \<open>
  On every request the loop makes at most \<^verbatim>\<open>max(pool_size, 5)\<close> acquisitions, the
  first with \<^verbatim>\<open>force_rotate\<close> false and every later one with it true.
\<close>

lemma retry_loop_step:
  "(\<exists>r ls'. retry_loop (Suc n) w qg k ls = (Some r, ls')
        \<and> acquisitions ls' = acquisitions ls @ [0 < k])
   \<or> (\<exists>ls'. retry_loop (Suc n) w qg k ls = retry_loop n w qg (k + 1) ls'
        \<and> acquisitions ls' = acquisitions ls @ [0 < k])"
proof -
  obtain res st' where g: "get_token (env_at w k) (clock_at w k) qg (0 < k) (manager ls) = (res, st')"
    by force
  show ?thesis
  proof (cases res)
    case (Inl e)
    show ?thesis
    proof (cases "email_var ls")
      case None
      then show ?thesis using g Inl by (cases e) (auto simp: Let_def)
    next
      case (Some m)
      then show ?thesis using g Inl by (cases e) (auto simp: Let_def)
    qed
  next
    case (Inr c)
    obtain tok pid mail where c: "c = (tok, pid, mail)" by (cases c)
    show ?thesis
    proof (cases "upstream_call w k (tok, pid, mail)")
      case (Succeeded r)
      then show ?thesis using g Inr c by (auto simp: Let_def)
    next
      case (HTTPStatusError status msg)
      then show ?thesis using g Inr c by (auto simp: Let_def)
    next
      case (Raised e)
      then show ?thesis using g Inr c by (cases e) (auto simp: Let_def)
    qed
  qed
qed

lemma retry_loop_attempts:
  "\<exists>m\<le>n. acquisitions (snd (retry_loop n w qg k ls))
            = acquisitions ls @ map (\<lambda>i. 0 < i) [k..<k + m]"
proof (induction n arbitrary: k ls)
  case 0
  then show ?case by simp
next
  case (Suc n)
  from retry_loop_step [of n w qg k ls]
  show ?case
  proof
    assume "\<exists>r ls'. retry_loop (Suc n) w qg k ls = (Some r, ls')
        \<and> acquisitions ls' = acquisitions ls @ [0 < k]"
    then obtain r ls' where "retry_loop (Suc n) w qg k ls = (Some r, ls')"
      "acquisitions ls' = acquisitions ls @ [0 < k]" by blast
    then have "acquisitions (snd (retry_loop (Suc n) w qg k ls))
            = acquisitions ls @ map (\<lambda>i. 0 < i) [k..<k + 1]" by simp
    moreover have "(1::nat) \<le> Suc n" by simp
    ultimately show ?thesis by blast
  next
    assume "\<exists>ls'. retry_loop (Suc n) w qg k ls = retry_loop n w qg (k + 1) ls'
        \<and> acquisitions ls' = acquisitions ls @ [0 < k]"
    then obtain ls' where step: "retry_loop (Suc n) w qg k ls = retry_loop n w qg (k + 1) ls'"
      and a: "acquisitions ls' = acquisitions ls @ [0 < k]" by blast
    obtain m where m: "m \<le> n"
      and b: "acquisitions (snd (retry_loop n w qg (k + 1) ls'))
            = acquisitions ls' @ map (\<lambda>i. 0 < i) [k + 1..<k + 1 + m]"
      using Suc.IH [of "k + 1" ls'] by blast
    have "[k..<k + Suc m] = k # [k + 1..<k + 1 + m]" by (simp add: upt_conv_Cons)
    then have "acquisitions (snd (retry_loop (Suc n) w qg k ls))
            = acquisitions ls @ map (\<lambda>i. 0 < i) [k..<k + Suc m]"
      using step a b by simp
    moreover have "Suc m \<le> Suc n" using m by simp
    ultimately show ?thesis by blast
  qed
qed

lemma dispatch_attempts_bounded:
  "\<exists>m\<le>max (length (tokens st)) 5.
      acquisitions (snd (dispatch qg logs w st)) = map (\<lambda>i. 0 < i) [0..<m]"
proof -
  let ?n = "max (length (tokens st)) 5"
  let ?ls0 = "\<lparr>last_error = None, email_var = None, manager = st, acquisitions = []\<rparr>"
  obtain m where m: "m \<le> ?n"
    and a: "acquisitions (snd (retry_loop ?n w qg 0 ?ls0))
            = acquisitions ?ls0 @ map (\<lambda>i. 0 < i) [0..<0 + m]"
    using retry_loop_attempts [of ?n w qg 0 ?ls0] by blast
  have "snd (dispatch qg logs w st) = snd (retry_loop ?n w qg 0 ?ls0)"
    by (cases "retry_loop ?n w qg 0 ?ls0"; cases "fst (retry_loop ?n w qg 0 ?ls0)")
       (simp_all add: dispatch_def Let_def)
  then have "acquisitions (snd (dispatch qg logs w st)) = map (\<lambda>i. 0 < i) [0..<m]"
    using a by simp
  then show ?thesis using m by blast
qed

text \<open>
  When the pool is not empty, every acquisition on a non-empty pool returns and every
  attempt then fails with a status or an exception the handlers continue on, the loop
  runs all its rounds and the request ends in a 429 whose detail is
  \<^verbatim>\<open>All accounts exhausted:\<close> followed by the last error.
\<close>

lemma retry_loop_continue:
  assumes "get_token (env_at w k) (clock_at w k) qg (0 < k) (manager ls) = (Inr (tok, pid, mail), st')"
    and "rotate_eligible (upstream_call w k (tok, pid, mail))"
  shows "\<exists>e. retry_loop (Suc n) w qg k ls =
           retry_loop n w qg (k + 1)
             (ls\<lparr>acquisitions := acquisitions ls @ [0 < k], manager := st',
                 email_var := Some mail, last_error := Some e\<rparr>)"
proof (cases "upstream_call w k (tok, pid, mail)")
  case (Succeeded r)
  then show ?thesis using assms(2) by (simp add: rotate_eligible_def)
next
  case (HTTPStatusError status msg)
  then have "status \<in> set rotate_statuses" using assms(2) by (simp add: rotate_eligible_def)
  then have "retry_loop (Suc n) w qg k ls =
           retry_loop n w qg (k + 1)
             (ls\<lparr>acquisitions := acquisitions ls @ [0 < k], manager := st',
                 email_var := Some mail, last_error := Some (Exception msg)\<rparr>)"
    using assms(1) HTTPStatusError by (simp add: Let_def)
  then show ?thesis by blast
next
  case (Raised e)
  show ?thesis
  proof (cases e)
    case (ValueError m)
    then show ?thesis using assms(2) Raised by (simp add: rotate_eligible_def)
  next
    case (UnboundLocalError m)
    then have "retry_loop (Suc n) w qg k ls =
           retry_loop n w qg (k + 1)
             (ls\<lparr>acquisitions := acquisitions ls @ [0 < k], manager := st',
                 email_var := Some mail, last_error := Some e\<rparr>)"
      using assms(1) Raised by (simp add: Let_def)
    then show ?thesis by blast
  next
    case (Exception m)
    then have "retry_loop (Suc n) w qg k ls =
           retry_loop n w qg (k + 1)
             (ls\<lparr>acquisitions := acquisitions ls @ [0 < k], manager := st',
                 email_var := Some mail, last_error := Some e\<rparr>)"
      using assms(1) Raised by (simp add: Let_def)
    then show ?thesis by blast
  qed
qed

lemma retry_loop_exhausts:
  assumes acq: "\<And>k st. tokens st \<noteq> []
        \<Longrightarrow> \<exists>c st'. get_token (env_at w k) (clock_at w k) qg (0 < k) st = (Inr c, st')"
    and up: "\<And>k c. rotate_eligible (upstream_call w k c)"
    and ne: "tokens (manager ls) \<noteq> []"
  shows "\<exists>ls'. retry_loop n w qg k ls = (None, ls')
           \<and> acquisitions ls' = acquisitions ls @ map (\<lambda>i. 0 < i) [k..<k + n]
           \<and> (0 < n \<longrightarrow> last_error ls' \<noteq> None \<and> email_var ls' \<noteq> None)"
  using ne
proof (induction n arbitrary: k ls)
  case 0
  then show ?case by simp
next
  case (Suc n)
  obtain c st' where g: "get_token (env_at w k) (clock_at w k) qg (0 < k) (manager ls) = (Inr c, st')"
    using acq [OF Suc.prems] by blast
  obtain tok pid mail where c: "c = (tok, pid, mail)" by (cases c)
  obtain t where "get_token_selected (env_at w k) (clock_at w k) qg (0 < k) (manager ls) = (Inr t, st')"
    using g [unfolded c] by (rule get_token_selected_of)
  then have "t \<in> set (tokens st')" using get_token_selected_post by blast
  then have ne': "tokens st' \<noteq> []" by auto
  obtain e where step: "retry_loop (Suc n) w qg k ls =
           retry_loop n w qg (k + 1)
             (ls\<lparr>acquisitions := acquisitions ls @ [0 < k], manager := st',
                 email_var := Some mail, last_error := Some e\<rparr>)"
    using retry_loop_continue [OF g [unfolded c] up] by blast
  let ?ls1 = "ls\<lparr>acquisitions := acquisitions ls @ [0 < k], manager := st',
                 email_var := Some mail, last_error := Some e\<rparr>"
  obtain ls' where r: "retry_loop n w qg (k + 1) ?ls1 = (None, ls')"
    and a: "acquisitions ls' = acquisitions ?ls1 @ map (\<lambda>i. 0 < i) [k + 1..<k + 1 + n]"
    and l: "0 < n \<longrightarrow> last_error ls' \<noteq> None \<and> email_var ls' \<noteq> None"
    using Suc.IH [of ?ls1 "k + 1"] ne' by auto
  have keep: "n = 0 \<Longrightarrow> ls' = ?ls1" using r by simp
  have "[k..<k + Suc n] = k # [k + 1..<k + 1 + n]"
    by (simp add: upt_conv_Cons)
  then have a': "acquisitions ls' = acquisitions ls @ map (\<lambda>i. 0 < i) [k..<k + Suc n]"
    using a by simp
  have l': "last_error ls' \<noteq> None \<and> email_var ls' \<noteq> None"
  proof (cases "n = 0")
    case True
    then show ?thesis using keep by simp
  next
    case False
    then show ?thesis using l by simp
  qed
  show ?case using step r a' l' by simp
qed

lemma positive_flags: "map (\<lambda>i. 0 < i) [Suc 0..<n] = replicate (n - Suc 0) True"
proof (induction n)
  case 0
  then show ?case by simp
next
  case (Suc n)
  show ?case
  proof (cases "n = 0")
    case True
    then show ?thesis by simp
  next
    case False
    then have "Suc 0 \<le> n" by simp
    then have "[Suc 0..<Suc n] = [Suc 0..<n] @ [n]" by simp
    moreover have "replicate (Suc n - Suc 0) True = replicate (n - Suc 0) True @ [True]"
      using False by (metis Suc_diff_le \<open>Suc 0 \<le> n\<close> replicate_Suc replicate_append_same)
    ultimately show ?thesis using Suc False by simp
  qed
qed

lemma dispatch_exhausted:
  assumes acq: "\<And>k st. tokens st \<noteq> []
        \<Longrightarrow> \<exists>c st'. get_token (env_at w k) (clock_at w k) qg (0 < k) st = (Inr c, st')"
    and up: "\<And>k c. rotate_eligible (upstream_call w k c)"
    and ne: "tokens st \<noteq> []"
  shows "\<exists>e. fst (dispatch qg logs w st) = HTTPException 429 (''All accounts exhausted: '' @ str_of_exn e)
            \<and> last_error (snd (dispatch qg logs w st)) = Some e"
    and "acquisitions (snd (dispatch qg logs w st))
           = False # replicate (max (length (tokens st)) 5 - 1) True"
proof -
  let ?n = "max (length (tokens st)) 5"
  let ?ls0 = "\<lparr>last_error = None, email_var = None, manager = st, acquisitions = []\<rparr>"
  have ne0: "tokens (manager ?ls0) \<noteq> []" using ne by simp
  from retry_loop_exhausts [OF acq up ne0, of ?n 0]
  obtain ls' where all: "retry_loop ?n w qg 0 ?ls0 = (None, ls')
           \<and> acquisitions ls' = acquisitions ?ls0 @ map (\<lambda>i. 0 < i) [0..<0 + ?n]
           \<and> (0 < ?n \<longrightarrow> last_error ls' \<noteq> None \<and> email_var ls' \<noteq> None)" ..
  have r: "retry_loop ?n w qg 0 ?ls0 = (None, ls')" using all by (elim conjE)
  have a: "acquisitions ls' = acquisitions ?ls0 @ map (\<lambda>i. 0 < i) [0..<0 + ?n]"
    using all by (elim conjE)
  have l: "0 < ?n \<longrightarrow> last_error ls' \<noteq> None \<and> email_var ls' \<noteq> None"
    using all by (elim conjE)
  have pos: "0 < ?n" by simp
  then obtain e where e: "last_error ls' = Some e" and m: "email_var ls' \<noteq> None"
    using l by auto
  have d: "dispatch qg logs w st = (HTTPException 429 (exhausted_detail (last_error ls')), ls')"
    using r m by (simp add: dispatch_def Let_def)
  show "\<exists>e. fst (dispatch qg logs w st) = HTTPException 429 (''All accounts exhausted: '' @ str_of_exn e)
            \<and> last_error (snd (dispatch qg logs w st)) = Some e"
    using d e by (simp add: exhausted_detail_def)
  have "[0..<?n] = 0 # [1..<?n]" using pos by (simp add: upt_conv_Cons)
  moreover have "map (\<lambda>i. 0 < i) [1..<?n] = replicate (?n - 1) True"
    using positive_flags [of ?n] by simp
  ultimately show "acquisitions (snd (dispatch qg logs w st)) = False # replicate (?n - 1) True"
    using d a by simp
qed

text \<open>
  Such a request: the pool of two, everything outside answering, upstream answering 429
  to every attempt. Five attempts are made, the first without rotation, and the request
  ends in the 429.
\<close>

lemma dispatch_exhausted_pool_ab:
  "fst (chat_completions world_busy pool_ab)
     = HTTPException 429 ''All accounts exhausted: 429 Too Many Requests''
   \<and> fst (messages world_busy pool_ab)
     = HTTPException 429 ''All accounts exhausted: 429 Too Many Requests''
   \<and> acquisitions (snd (chat_completions world_busy pool_ab)) = [False, True, True, True, True]"
  by code_simp


text \<open>
  C3, at the failing input: the first account of the pool has an expired token and the
  token endpoint answers 400, with a healthy second account in the pool or without.
  The first acquisition raises the refresh failure, the handler prints \<^verbatim>\<open>email\<close>
  before it was ever bound, and the request ends in an UnboundLocalError after one
  attempt instead of rotating or answering 429, on both endpoints.
\<close>

theorem C3_refresh_failure_first_attempt:
  "fst (chat_completions world_down pool_expired_b) = Unhandled (UnboundLocalError ''email'')
   \<and> fst (messages world_down pool_expired_b) = Unhandled (UnboundLocalError ''email'')
   \<and> acquisitions (snd (chat_completions world_down pool_expired_b)) = [False]
   \<and> fst (chat_completions world_down pool_expired) = Unhandled (UnboundLocalError ''email'')
   \<and> fst (messages world_down pool_expired) = Unhandled (UnboundLocalError ''email'')"
  by code_simp

end
